theory Spec2Isabelle
  imports Main "HOL-Library.AList" "HOL-Library.Char_ord" "HOL-Library.List_Lexorder"
    "HOL-Library.Sublist"
begin

section \<open>The file system seen by \<^verbatim>\<open>BackupApp\<close>\<close>

text \<open>
  \<^verbatim>\<open>backup_app.cpp\<close> works on the file system through \<^verbatim>\<open>std::filesystem\<close>. The model
  is a directory tree. A path is the list of its components below the root of the file
  system (absolute, without \<^verbatim>\<open>.\<close>, \<^verbatim>\<open>..\<close> or symbolic links). A regular file holds
  its bytes and whether it can be opened for reading; a directory holds whether it can be
  opened for listing and its entries, in the order in which a directory iterator yields
  them. Modification times are not modelled: \<^verbatim>\<open>FileInfo::last_modified\<close> is written by the
  scan and read nowhere. A hard link is a second entry with the bytes and the mode of the
  first; that the two names share one file afterwards is not modelled.
\<close>

type_synonym path = "string list"

datatype node =
    File (content: string) (readable: bool)
  | Dir (listable: bool) (entries: "(string \<times> node) list")

text \<open>The exceptions of the code: \<^verbatim>\<open>std::runtime_error\<close> thrown by \<^verbatim>\<open>calculate_md5\<close>, and
  \<^verbatim>\<open>fs::filesystem_error\<close> thrown by the named library call on the named path.\<close>

datatype fs_call = Iterate | Create_directories | Copy_file | Create_hard_link

datatype exn = Runtime_error path | Filesystem_error fs_call path

text \<open>What lies outside the program: the digest function (OpenSSL's MD5, hex-encoded),
  the string \<^verbatim>\<open>current_timestamp()\<close> reads off the clock, and the faults of the platform
  that the tree does not show (a link across devices, a full disk, a permission).\<close>

record env =
  md5_hex :: "string \<Rightarrow> string"
  clock :: string
  link_permitted :: "path \<Rightarrow> path \<Rightarrow> bool"
  copy_permitted :: "path \<Rightarrow> path \<Rightarrow> bool"

fun lookup :: "node \<Rightarrow> path \<Rightarrow> node option" where
  "lookup n [] = Some n"
| "lookup (File c r) (x # p) = None"
| "lookup (Dir l es) (x # p) = (case map_of es x of None \<Rightarrow> None | Some n \<Rightarrow> lookup n p)"

definition exists :: "node \<Rightarrow> path \<Rightarrow> bool" where
  "exists t p = (lookup t p \<noteq> None)"

text \<open>\<^verbatim>\<open>path::parent_path\<close>, \<^verbatim>\<open>path::filename\<close> and \<^verbatim>\<open>operator/\<close> with a relative right
  operand.\<close>

definition parent_path :: "path \<Rightarrow> path" where
  "parent_path p = butlast p"

definition filename :: "path \<Rightarrow> string" where
  "filename p = (if p = [] then [] else last p)"

text \<open>\<^verbatim>\<open>fs::relative(p, base)\<close> on canonical paths is \<^verbatim>\<open>lexically_relative\<close>: the common
  prefix is dropped, every component left of \<^verbatim>\<open>base\<close> becomes \<^verbatim>\<open>..\<close>, and equal paths
  give \<^verbatim>\<open>.\<close>.\<close>

fun strip_common :: "path \<Rightarrow> path \<Rightarrow> path \<times> path" where
  "strip_common (x # p) (y # b) = (if x = y then strip_common p b else (x # p, y # b))"
| "strip_common p b = (p, b)"

definition relative :: "path \<Rightarrow> path \<Rightarrow> path" where
  "relative p base =
     (case strip_common p base of
        (p', b') \<Rightarrow> if p' = [] \<and> b' = [] then [''.''] else replicate (length b') ''..'' @ p')"

text \<open>\<^verbatim>\<open>fs::create_directories\<close>: every missing directory on the path is created; a
  component that exists and is no directory makes the call throw, and then nothing was
  created, since nothing is missing above an existing component.\<close>

fun mkdirs :: "path \<Rightarrow> node \<Rightarrow> node option" where
  "mkdirs [] (Dir l es) = Some (Dir l es)"
| "mkdirs [] (File c r) = None"
| "mkdirs (x # p) (File c r) = None"
| "mkdirs (x # p) (Dir l es) =
     (case map_of es x of
        None \<Rightarrow> map_option (\<lambda>n. Dir l (es @ [(x, n)])) (mkdirs p (Dir True []))
      | Some n \<Rightarrow> map_option (\<lambda>n'. Dir l (AList.update x n' es)) (mkdirs p n))"

definition create_directories :: "path \<Rightarrow> node \<Rightarrow> exn + node" where
  "create_directories p t =
     (case mkdirs p t of None \<Rightarrow> Inl (Filesystem_error Create_directories p) | Some t' \<Rightarrow> Inr t')"

text \<open>Writing a regular file at a path: the parent must be a directory, and the path
  itself must be free or a regular file (which is replaced).\<close>

fun put_file :: "path \<Rightarrow> node \<Rightarrow> node \<Rightarrow> node option" where
  "put_file [] f t = None"
| "put_file (x # p) f (File c r) = None"
| "put_file [x] f (Dir l es) =
     (case map_of es x of
        Some (Dir l' es') \<Rightarrow> None
      | _ \<Rightarrow> Some (Dir l (AList.update x f es)))"
| "put_file (x # p) f (Dir l es) =
     (case map_of es x of
        None \<Rightarrow> None
      | Some n \<Rightarrow> map_option (\<lambda>n'. Dir l (AList.update x n' es)) (put_file p f n))"

text \<open>\<^verbatim>\<open>fs::copy_file(from, to, overwrite_existing)\<close>: \<^verbatim>\<open>from\<close> must be a regular file
  that can be read, and \<^verbatim>\<open>to\<close> another path.\<close>

definition copy_file :: "env \<Rightarrow> path \<Rightarrow> path \<Rightarrow> node \<Rightarrow> exn + node" where
  "copy_file e from to t =
     (case lookup t from of
        Some (File c True) \<Rightarrow>
          if from = to \<or> \<not> copy_permitted e from to then Inl (Filesystem_error Copy_file from)
          else (case put_file to (File c True) t of
                  None \<Rightarrow> Inl (Filesystem_error Copy_file from)
                | Some t' \<Rightarrow> Inr t')
      | _ \<Rightarrow> Inl (Filesystem_error Copy_file from))"

text \<open>\<^verbatim>\<open>fs::create_hard_link(target, link)\<close>: \<^verbatim>\<open>target\<close> must be a regular file and
  \<^verbatim>\<open>link\<close> must not exist.\<close>

definition create_hard_link :: "env \<Rightarrow> path \<Rightarrow> path \<Rightarrow> node \<Rightarrow> exn + node" where
  "create_hard_link e target link t =
     (case lookup t target of
        Some (File c r) \<Rightarrow>
          if exists t link \<or> \<not> link_permitted e target link
          then Inl (Filesystem_error Create_hard_link target)
          else (case put_file link (File c r) t of
                  None \<Rightarrow> Inl (Filesystem_error Create_hard_link target)
                | Some t' \<Rightarrow> Inr t')
      | _ \<Rightarrow> Inl (Filesystem_error Create_hard_link target))"

text \<open>\<^verbatim>\<open>std::ofstream(p, std::ios::app)\<close> followed by one write: the file is created when
  missing; the stream is bad when the path is a directory or has no parent directory,
  and then nothing is written.\<close>

definition append_file :: "path \<Rightarrow> string \<Rightarrow> node \<Rightarrow> node" where
  "append_file p s t =
     (case lookup t p of
        Some (Dir l es) \<Rightarrow> t
      | Some (File c r) \<Rightarrow> (case put_file p (File (c @ s) r) t of None \<Rightarrow> t | Some t' \<Rightarrow> t')
      | None \<Rightarrow> (case put_file p (File s True) t of None \<Rightarrow> t | Some t' \<Rightarrow> t'))"

text \<open>\<^verbatim>\<open>fs::directory_iterator(p)\<close>: the entries of a directory that can be listed.\<close>

definition directory_iterator :: "node \<Rightarrow> path \<Rightarrow> exn + (path \<times> node) list" where
  "directory_iterator t p =
     (case lookup t p of
        Some (Dir True es) \<Rightarrow> Inr (map (\<lambda>(x, n). (p @ [x], n)) es)
      | _ \<Rightarrow> Inl (Filesystem_error Iterate p))"

text \<open>\<^verbatim>\<open>fs::recursive_directory_iterator\<close>: depth first, a directory before its content.
  The entry of a directory that cannot be listed is still yielded; the increment that
  would descend into it throws. The result is the entries yielded and the exception that
  ended the iteration, if one did.\<close>

fun walk :: "path \<Rightarrow> (string \<times> node) list \<Rightarrow> (path \<times> node) list \<times> exn option" where
  "walk p [] = ([], None)"
| "walk p ((x, File c r) # es) =
     (case walk p es of (ys, ex) \<Rightarrow> ((p @ [x], File c r) # ys, ex))"
| "walk p ((x, Dir l ds) # es) =
     (if \<not> l then ([(p @ [x], Dir l ds)], Some (Filesystem_error Iterate (p @ [x])))
      else (case walk (p @ [x]) ds of
              (ys, Some ex) \<Rightarrow> ((p @ [x], Dir l ds) # ys, Some ex)
            | (ys, None) \<Rightarrow>
                (case walk p es of (zs, ex) \<Rightarrow> ((p @ [x], Dir l ds) # ys @ zs, ex))))"

definition recursive_directory_iterator :: "node \<Rightarrow> path \<Rightarrow> (path \<times> node) list \<times> exn option" where
  "recursive_directory_iterator t p =
     (case lookup t p of
        Some (Dir True es) \<Rightarrow> walk p es
      | _ \<Rightarrow> ([], Some (Filesystem_error Iterate p)))"

section \<open>The data of \<^verbatim>\<open>BackupApp\<close>\<close>

text \<open>\<^verbatim>\<open>struct FileInfo\<close> (without \<^verbatim>\<open>last_modified\<close>) and \<^verbatim>\<open>struct BackupInfo\<close>.\<close>

record FileInfo =
  path :: path
  md5 :: string
  file_size :: nat

record BackupInfo =
  timestamp :: string
  backup_path :: path
  file_count :: nat
  copied_files :: nat
  source_dir :: path
  is_incremental :: bool
  based_on :: string

text \<open>The lines written to \<^verbatim>\<open>std::cout\<close> and \<^verbatim>\<open>std::cerr\<close>, by what they say.\<close>

datatype message =
    Error_source_missing
  | Cannot_process path exn
  | Scanning_source path
  | Copying_files
  | Cannot_copy path exn
  | Backup_done path
  | Processed nat nat
  | No_previous_backup
  | Found_latest path
  | Scanning_changes
  | No_changes
  | Backing_up nat
  | Processing_unmodified
  | Incremental_done path
  | Processed_changed nat

text \<open>The calls that wrote a file of the new snapshot, by the statement that made them:
  \<^verbatim>\<open>copy_file\<close> from the source tree, \<^verbatim>\<open>create_hard_link\<close> from the latest backup, and
  the \<^verbatim>\<open>copy_file\<close> from the latest backup in the handler of a failed link. The log is
  only written, never read, by the program.\<close>

datatype file_op =
    Copied_from_source path path
  | Linked_from_backup path path
  | Copied_from_backup path path

text \<open>The state a call works on: the file system, the console, the log of writes, and
  the member \<^verbatim>\<open>backup_history\<close> of the \<^verbatim>\<open>BackupApp\<close> object.\<close>

record world =
  root :: node
  console :: "message list"
  ops :: "file_op list"
  backup_history :: "BackupInfo list"

definition say :: "message \<Rightarrow> world \<Rightarrow> world" where
  "say m w = w\<lparr>console := console w @ [m]\<rparr>"

section \<open>Fingerprinting and scanning\<close>

definition calculate_md5 :: "env \<Rightarrow> node \<Rightarrow> path \<Rightarrow> exn + string" where
  "calculate_md5 e t filepath =
     (case lookup t filepath of
        Some (File c True) \<Rightarrow> Inr (md5_hex e c)
      | _ \<Rightarrow> Inl (Runtime_error filepath))"

definition is_regular_file :: "node \<Rightarrow> bool" where
  "is_regular_file n = (case n of File c r \<Rightarrow> True | Dir l es \<Rightarrow> False)"

definition is_directory :: "node \<Rightarrow> bool" where
  "is_directory n = (case n of File c r \<Rightarrow> False | Dir l es \<Rightarrow> True)"

text \<open>The body of the loop of \<^verbatim>\<open>scan_directory\<close>, over the entries the iterator yields.\<close>

fun scan_entries :: "env \<Rightarrow> (path \<times> node) list \<Rightarrow> FileInfo list \<Rightarrow> world \<Rightarrow> FileInfo list \<times> world" where
  "scan_entries e [] files_info w = (files_info, w)"
| "scan_entries e ((p, n) # ys) files_info w =
     (if is_regular_file n then
        (case calculate_md5 e (root w) p of
           Inr h \<Rightarrow>
             scan_entries e ys
               (files_info @ [\<lparr>path = p, md5 = h, file_size = length (content n)\<rparr>]) w
         | Inl ex \<Rightarrow> scan_entries e ys files_info (say (Cannot_process p ex) w))
      else scan_entries e ys files_info w)"

definition scan_directory :: "env \<Rightarrow> path \<Rightarrow> world \<Rightarrow> (exn + FileInfo list) \<times> world" where
  "scan_directory e dir_path w =
     (case recursive_directory_iterator (root w) dir_path of
        (ys, ex) \<Rightarrow>
          (case scan_entries e ys [] w of
             (files_info, w') \<Rightarrow>
               (case ex of None \<Rightarrow> (Inr files_info, w') | Some x \<Rightarrow> (Inl x, w'))))"

definition current_timestamp :: "env \<Rightarrow> string" where
  "current_timestamp e = clock e"

section \<open>The history file\<close>

function show_nat :: "nat \<Rightarrow> string" where
  "show_nat n =
     (if n < 10 then [char_of (48 + n)] else show_nat (n div 10) @ [char_of (48 + n mod 10)])"
  by pat_completeness auto
termination
  by (relation "measure id") auto

text \<open>\<^verbatim>\<open>operator<<\<close> of a \<^verbatim>\<open>fs::path\<close> writes the path quoted, with \<^verbatim>\<open>"\<close> and
  \<^verbatim>\<open>\\<close> escaped.\<close>

definition path_string :: "path \<Rightarrow> string" where
  "path_string p = (if p = [] then ''/'' else concat (map (\<lambda>x. ''/'' @ x) p))"

definition quoted :: "string \<Rightarrow> string" where
  "quoted s =
     [CHR 0x22] @ concat (map (\<lambda>c. if c = CHR 0x22 \<or> c = CHR 0x5C then [CHR 0x5C, c] else [c]) s)
       @ [CHR 0x22]"

definition full_history_line :: "string \<Rightarrow> path \<Rightarrow> nat \<Rightarrow> nat \<Rightarrow> string" where
  "full_history_line ts src copied n_files =
     ts @ [CHR 0x3A, CHR 0x20, CHR 0xE5, CHR 0xA4, CHR 0x87, CHR 0xE4, CHR 0xBB, CHR 0xBD,
           CHR 0xE8, CHR 0x87, CHR 0xAA, CHR 0x20]
        @ quoted (path_string src)
        @ [CHR 0x20, CHR 0x28, CHR 0xE5, CHR 0x85, CHR 0xB1, CHR 0x20]
        @ show_nat copied @ ''/'' @ show_nat n_files
        @ [CHR 0x20, CHR 0xE6, CHR 0x96, CHR 0x87, CHR 0xE4, CHR 0xBB, CHR 0xB6, CHR 0x29, CHR 0x0A]"

definition incremental_history_line :: "string \<Rightarrow> path \<Rightarrow> nat \<Rightarrow> nat \<Rightarrow> string" where
  "incremental_history_line ts src copied changed =
     ts @ [CHR 0x3A, CHR 0x20, CHR 0xE5, CHR 0xA2, CHR 0x9E, CHR 0xE9, CHR 0x87, CHR 0x8F,
           CHR 0xE5, CHR 0xA4, CHR 0x87, CHR 0xE4, CHR 0xBB, CHR 0xBD, CHR 0xE8, CHR 0x87,
           CHR 0xAA, CHR 0x20]
        @ quoted (path_string src)
        @ [CHR 0x20, CHR 0x28, CHR 0xE5, CHR 0x85, CHR 0xB1, CHR 0x20]
        @ show_nat copied @ ''/'' @ show_nat changed
        @ [CHR 0x20, CHR 0xE5, CHR 0x8F, CHR 0x98, CHR 0xE6, CHR 0x9B, CHR 0xB4, CHR 0xE6,
           CHR 0x96, CHR 0x87, CHR 0xE4, CHR 0xBB, CHR 0xB6, CHR 0x29, CHR 0x0A]"

definition history_file :: "path \<Rightarrow> path" where
  "history_file bak = bak @ [''backup_history.txt'']"

section \<open>\<^verbatim>\<open>create_backup\<close>\<close>

text \<open>The copy loop, written twice in the source with the same text (lines 115 to 127
  and 209 to 221). \<^verbatim>\<open>create_directories\<close> stands outside the \<^verbatim>\<open>try\<close>, so its exception
  leaves the loop; the exception of \<^verbatim>\<open>copy_file\<close> is caught and the loop goes on.\<close>

fun copy_files :: "env \<Rightarrow> path \<Rightarrow> path \<Rightarrow> FileInfo list \<Rightarrow> nat \<Rightarrow> world \<Rightarrow> (exn + nat) \<times> world" where
  "copy_files e src cur [] copied w = (Inr copied, w)"
| "copy_files e src cur (file_info # rest) copied w =
     (let relative_path = relative (path file_info) src;
          dest_path = cur @ relative_path
      in case create_directories (parent_path dest_path) (root w) of
           Inl ex \<Rightarrow> (Inl ex, w)
         | Inr t \<Rightarrow>
             (case copy_file e (path file_info) dest_path t of
                Inr t' \<Rightarrow>
                  copy_files e src cur rest (Suc copied)
                    (w\<lparr>root := t', ops := ops w @ [Copied_from_source (path file_info) dest_path]\<rparr>)
              | Inl ex \<Rightarrow>
                  copy_files e src cur rest copied (say (Cannot_copy relative_path ex) (w\<lparr>root := t\<rparr>))))"

definition create_backup :: "env \<Rightarrow> path \<Rightarrow> path \<Rightarrow> world \<Rightarrow> (exn + bool) \<times> world" where
  "create_backup e src bak w =
     (if \<not> exists (root w) src then (Inr False, say Error_source_missing w)
      else
        let ts = current_timestamp e;
            current_backup_dir = bak @ [''backup_'' @ ts]
        in case create_directories current_backup_dir (root w) of
             Inl ex \<Rightarrow> (Inl ex, w)
           | Inr t \<Rightarrow>
               (case scan_directory e src (say (Scanning_source src) (w\<lparr>root := t\<rparr>)) of
                  (Inl ex, w1) \<Rightarrow> (Inl ex, w1)
                | (Inr source_files, w1) \<Rightarrow>
                    (case copy_files e src current_backup_dir source_files 0 (say Copying_files w1) of
                       (Inl ex, w2) \<Rightarrow> (Inl ex, w2)
                     | (Inr copied, w2) \<Rightarrow>
                         (Inr True,
                          say (Processed copied (length source_files))
                            (say (Backup_done current_backup_dir)
                               (w2\<lparr>backup_history := backup_history w2 @
                                      [\<lparr>timestamp = ts, backup_path = current_backup_dir,
                                        file_count = length source_files, copied_files = copied,
                                        source_dir = src, is_incremental = False, based_on = []\<rparr>],
                                    root := append_file (history_file bak)
                                      (full_history_line ts src copied (length source_files))
                                      (root w2)\<rparr>))))))"

section \<open>\<^verbatim>\<open>incremental_backup\<close>\<close>

text \<open>Lines 160 to 165: the directories below the backup directory whose name starts with
  \<^verbatim>\<open>backup_\<close>.\<close>

definition find_backups :: "node \<Rightarrow> path \<Rightarrow> exn + path list" where
  "find_backups t bak =
     (case directory_iterator t bak of
        Inl ex \<Rightarrow> Inl ex
      | Inr ys \<Rightarrow>
          Inr (map fst (filter (\<lambda>(p, n). is_directory n \<and> prefix ''backup_'' (filename p)) ys)))"

text \<open>Lines 183 to 195: a source file is backed up unless the first file of the latest
  backup whose path relative to its grandparent directory equals the source file's
  relative path has the same digest.\<close>

definition files_to_backup :: "path \<Rightarrow> FileInfo list \<Rightarrow> FileInfo list \<Rightarrow> FileInfo list" where
  "files_to_backup src source_files backup_files =
     filter
       (\<lambda>source_file.
          let relative_path = relative (path source_file) src
          in case find (\<lambda>info. relative (path info) (parent_path (parent_path (path info)))
                                = relative_path) backup_files of
               None \<Rightarrow> True
             | Some it \<Rightarrow> md5 source_file \<noteq> md5 it)
       source_files"

text \<open>Lines 229 to 236: a file of the latest backup is taken over unless a source file
  has its relative path and its digest.\<close>

definition need_copy :: "path \<Rightarrow> FileInfo list \<Rightarrow> path \<Rightarrow> FileInfo \<Rightarrow> bool" where
  "need_copy src source_files relative_path backup_file =
     (\<not> list_ex (\<lambda>source_file. relative (path source_file) src = relative_path
                                \<and> md5 source_file = md5 backup_file) source_files)"

text \<open>Lines 240 to 250: the link, and in the handler of any exception of
  \<^verbatim>\<open>create_hard_link\<close> the copy, whose own exception is caught and printed. The tree
  \<^verbatim>\<open>t\<close> is the file system after \<^verbatim>\<open>create_directories\<close>.\<close>

definition link_or_copy :: "env \<Rightarrow> FileInfo \<Rightarrow> path \<Rightarrow> path \<Rightarrow> node \<Rightarrow> world \<Rightarrow> world" where
  "link_or_copy e backup_file relative_path dest_path t w =
     (case create_hard_link e (path backup_file) dest_path t of
        Inr t' \<Rightarrow>
          w\<lparr>root := t', ops := ops w @ [Linked_from_backup (path backup_file) dest_path]\<rparr>
      | Inl lx \<Rightarrow>
          (case copy_file e (path backup_file) dest_path t of
             Inr t' \<Rightarrow>
               w\<lparr>root := t', ops := ops w @ [Copied_from_backup (path backup_file) dest_path]\<rparr>
           | Inl ex \<Rightarrow> say (Cannot_copy relative_path ex) (w\<lparr>root := t\<rparr>)))"

text \<open>Lines 225 to 252. \<^verbatim>\<open>create_directories\<close> again stands outside the \<^verbatim>\<open>try\<close>.\<close>

fun link_files ::
  "env \<Rightarrow> path \<Rightarrow> path \<Rightarrow> path \<Rightarrow> FileInfo list \<Rightarrow> FileInfo list \<Rightarrow> world \<Rightarrow> exn option \<times> world" where
  "link_files e src latest_backup cur source_files [] w = (None, w)"
| "link_files e src latest_backup cur source_files (backup_file # rest) w =
     (let relative_path = relative (path backup_file) latest_backup;
          dest_path = cur @ relative_path
      in if need_copy src source_files relative_path backup_file then
           (case create_directories (parent_path dest_path) (root w) of
              Inl ex \<Rightarrow> (Some ex, w)
            | Inr t \<Rightarrow>
                link_files e src latest_backup cur source_files rest
                  (link_or_copy e backup_file relative_path dest_path t w))
         else link_files e src latest_backup cur source_files rest w)"

text \<open>Lines 203 to 274: the run once there is something to back up.\<close>

definition write_incremental ::
  "env \<Rightarrow> path \<Rightarrow> path \<Rightarrow> path \<Rightarrow> FileInfo list \<Rightarrow> FileInfo list \<Rightarrow> FileInfo list \<Rightarrow> world
    \<Rightarrow> (exn + bool) \<times> world" where
  "write_incremental e src bak latest_backup source_files backup_files to_backup w =
     (let ts = current_timestamp e;
          current_backup_dir = bak @ [''backup_'' @ ts]
      in case create_directories current_backup_dir (root w) of
           Inl ex \<Rightarrow> (Inl ex, w)
         | Inr t \<Rightarrow>
             (case copy_files e src current_backup_dir to_backup 0
                     (say (Backing_up (length to_backup)) (w\<lparr>root := t\<rparr>)) of
                (Inl ex, w1) \<Rightarrow> (Inl ex, w1)
              | (Inr copied, w1) \<Rightarrow>
                  (case link_files e src latest_backup current_backup_dir source_files backup_files
                          (say Processing_unmodified w1) of
                     (Some ex, w2) \<Rightarrow> (Inl ex, w2)
                   | (None, w2) \<Rightarrow>
                       (Inr True,
                        say (Processed_changed copied)
                          (say (Incremental_done current_backup_dir)
                             (w2\<lparr>backup_history := backup_history w2 @
                                    [\<lparr>timestamp = ts, backup_path = current_backup_dir,
                                      file_count = length source_files, copied_files = copied,
                                      source_dir = src, is_incremental = True,
                                      based_on = filename latest_backup\<rparr>],
                                  root := append_file (history_file bak)
                                    (incremental_history_line ts src copied (length to_backup))
                                    (root w2)\<rparr>))))))"

definition incremental_backup :: "env \<Rightarrow> path \<Rightarrow> path \<Rightarrow> world \<Rightarrow> (exn + bool) \<times> world" where
  "incremental_backup e src bak w =
     (if \<not> exists (root w) src then (Inr False, say Error_source_missing w)
      else
        case find_backups (root w) bak of
          Inl ex \<Rightarrow> (Inl ex, w)
        | Inr backups \<Rightarrow>
            if backups = [] then create_backup e src bak (say No_previous_backup w)
            else
              let latest_backup = last (sort backups) in
              (case scan_directory e src (say Scanning_changes (say (Found_latest latest_backup) w)) of
                 (Inl ex, w1) \<Rightarrow> (Inl ex, w1)
               | (Inr source_files, w1) \<Rightarrow>
                   (case scan_directory e latest_backup w1 of
                      (Inl ex, w2) \<Rightarrow> (Inl ex, w2)
                    | (Inr backup_files, w2) \<Rightarrow>
                        let to_backup = files_to_backup src source_files backup_files in
                        if to_backup = [] then (Inr False, say No_changes w2)
                        else write_incremental e src bak latest_backup source_files backup_files
                               to_backup w2)))"

section \<open>Notions used to state the properties\<close>

text \<open>The exceptions of directory iteration and directory creation.\<close>

definition directory_fault :: "exn \<Rightarrow> bool" where
  "directory_fault ex =
     (case ex of
        Filesystem_error Iterate p \<Rightarrow> True
      | Filesystem_error Create_directories p \<Rightarrow> True
      | _ \<Rightarrow> False)"

text \<open>A write that copied from the source tree; a write that copied bytes (from the source
  tree or, after a failed link, from the latest backup); the writes of one call.\<close>

definition from_source :: "file_op \<Rightarrow> bool" where
  "from_source x = (case x of Copied_from_source a b \<Rightarrow> True | _ \<Rightarrow> False)"

definition by_copy :: "file_op \<Rightarrow> bool" where
  "by_copy x = (case x of Linked_from_backup a b \<Rightarrow> False | _ \<Rightarrow> True)"

definition new_ops :: "world \<Rightarrow> world \<Rightarrow> file_op list" where
  "new_ops w w' = drop (length (ops w)) (ops w')"

text \<open>The bytes of the regular file at a path; whether a path is a directory; the regular
  files below a directory, by their relative paths.\<close>

definition read_file :: "node \<Rightarrow> path \<Rightarrow> string option" where
  "read_file t p = (case lookup t p of Some (File c r) \<Rightarrow> Some c | _ \<Rightarrow> None)"


definition regular_files :: "node \<Rightarrow> path \<Rightarrow> path list" where
  "regular_files t dir =
     map (\<lambda>(p, n). relative p dir)
       (filter (\<lambda>(p, n). is_regular_file n) (fst (recursive_directory_iterator t dir)))"




text \<open>Two states that differ at most in what was printed.\<close>

definition same_effects :: "world \<Rightarrow> world \<Rightarrow> bool" where
  "same_effects w v = (root w = root v \<and> ops w = ops v \<and> backup_history w = backup_history v)"

text \<open>The lines one call printed; the line that reports a failed copy (lines 125, 219
  and 248).\<close>

definition new_console :: "world \<Rightarrow> world \<Rightarrow> message list" where
  "new_console w w' = drop (length (console w)) (console w')"

definition is_cannot_copy :: "message \<Rightarrow> bool" where
  "is_cannot_copy m = (case m of Cannot_copy p ex \<Rightarrow> True | _ \<Rightarrow> False)"

text \<open>What a scan makes of the entries that the iterator yields: the records of the
  regular files whose digest can be computed, in the order of the iteration, and the
  lines printed for the other regular files.\<close>

definition fingerprinted :: "env \<Rightarrow> node \<Rightarrow> (path \<times> node) list \<Rightarrow> FileInfo list" where
  "fingerprinted e t ys =
     concat (map (\<lambda>(p, n).
       if is_regular_file n then
         (case calculate_md5 e t p of
            Inr h \<Rightarrow> [\<lparr>path = p, md5 = h, file_size = length (content n)\<rparr>]
          | Inl ex \<Rightarrow> [])
       else []) ys)"

definition not_fingerprinted :: "env \<Rightarrow> node \<Rightarrow> (path \<times> node) list \<Rightarrow> message list" where
  "not_fingerprinted e t ys =
     concat (map (\<lambda>(p, n).
       if is_regular_file n then
         (case calculate_md5 e t p of Inr h \<Rightarrow> [] | Inl ex \<Rightarrow> [Cannot_process p ex])
       else []) ys)"


text \<open>The form that \<^verbatim>\<open>%Y%m%d_%H%M%S\<close> (line 94) gives a timestamp: eight digits, an
  underscore, six digits. The name of a snapshot directory, \<^verbatim>\<open>backup_\<close> followed by a
  timestamp. A text that is one line: it ends with a newline and holds no other.\<close>

definition is_digit :: "char \<Rightarrow> bool" where
  "is_digit c = (CHR ''0'' \<le> c \<and> c \<le> CHR ''9'')"

definition timestamp_format :: "string \<Rightarrow> bool" where
  "timestamp_format s =
     (length s = 15 \<and> list_all is_digit (take 8 s) \<and> s ! 8 = CHR ''_'' \<and> list_all is_digit (drop 9 s))"

definition snapshot_name :: "string \<Rightarrow> bool" where
  "snapshot_name x = (prefix ''backup_'' x \<and> timestamp_format (drop 7 x))"


section \<open>Example file systems\<close>

text \<open>In the examples the digest of a file is its content, copies are permitted wherever
  the tree allows them, and the clock reads 2 January 2024, midnight. Links are permitted
  in \<open>plain_env\<close> and refused in \<open>no_link_env\<close>, as across devices.\<close>

definition plain_env :: env where
  "plain_env = \<lparr>md5_hex = (\<lambda>s. s), clock = ''20240102_000000'',
                 link_permitted = (\<lambda>target link. True), copy_permitted = (\<lambda>from to. True)\<rparr>"

definition no_link_env :: env where
  "no_link_env = plain_env\<lparr>link_permitted := (\<lambda>target link. False)\<rparr>"

definition start :: "node \<Rightarrow> world" where
  "start t = \<lparr>root = t, console = [], ops = [], backup_history = []\<rparr>"

text \<open>\<^verbatim>\<open>/src/f.txt\<close> is what the backup of 1 January holds.\<close>

definition tree_unchanged :: node where
  "tree_unchanged =
     Dir True
       [(''src'', Dir True [(''f.txt'', File ''hello'' True)]),
        (''bk'', Dir True
           [(''backup_20240101_000000'', Dir True [(''f.txt'', File ''hello'' True)])])]"

text \<open>\<^verbatim>\<open>/src/f.txt\<close> was modified after the backup of 1 January.\<close>

definition tree_modified :: node where
  "tree_modified =
     Dir True
       [(''src'', Dir True [(''f.txt'', File ''new'' True)]),
        (''bk'', Dir True
           [(''backup_20240101_000000'', Dir True [(''f.txt'', File ''old'' True)])])]"

text \<open>\<^verbatim>\<open>/src/a/f.txt\<close>, one directory down, is what the backup of 1 January holds; in the
  second tree a new file \<^verbatim>\<open>/src/g.txt\<close> stands beside it.\<close>

definition tree_no_changes :: node where
  "tree_no_changes =
     Dir True
       [(''src'', Dir True [(''a'', Dir True [(''f.txt'', File ''hello'' True)])]),
        (''bk'', Dir True
           [(''backup_20240101_000000'',
               Dir True [(''a'', Dir True [(''f.txt'', File ''hello'' True)])])])]"

definition tree_nested_unchanged :: node where
  "tree_nested_unchanged =
     Dir True
       [(''src'', Dir True [(''a'', Dir True [(''f.txt'', File ''hello'' True)]),
                            (''g.txt'', File ''new'' True)]),
        (''bk'', Dir True
           [(''backup_20240101_000000'',
               Dir True [(''a'', Dir True [(''f.txt'', File ''hello'' True)])])])]"

text \<open>\<^verbatim>\<open>/src/a/f.txt\<close> was modified after the backup of 1 January, and its new bytes are
  also those of \<^verbatim>\<open>x/a/f.txt\<close>, which the backup holds and lists first.\<close>

definition tree_shadowed :: node where
  "tree_shadowed =
     Dir True
       [(''src'', Dir True [(''x'', Dir True [(''a'', Dir True [(''f.txt'', File ''new'' True)])]),
                            (''a'', Dir True [(''f.txt'', File ''new'' True)])]),
        (''bk'', Dir True
           [(''backup_20240101_000000'',
               Dir True [(''x'', Dir True [(''a'', Dir True [(''f.txt'', File ''new'' True)])]),
                         (''a'', Dir True [(''f.txt'', File ''old'' True)])])])]"

text \<open>A backup directory without a backup; a source directory without a regular file.\<close>

definition tree_first_backup :: node where
  "tree_first_backup =
     Dir True
       [(''src'', Dir True [(''f.txt'', File ''hello'' True)]),
        (''bk'', Dir True [(''notes'', Dir True []), (''backup_history.txt'', File [] True)])]"





text \<open>A backup directory whose only entry is the directory \<^verbatim>\<open>backup_notes\<close>; a backup
  directory that cannot be listed.\<close>

definition tree_backup_notes :: node where
  "tree_backup_notes =
     Dir True
       [(''src'', Dir True [(''f.txt'', File ''hello'' True)]),
        (''bk'', Dir True [(''backup_notes'', Dir True [])])]"

definition tree_unlistable_root :: node where
  "tree_unlistable_root =
     Dir True
       [(''src'', Dir True [(''f.txt'', File ''hello'' True)]),
        (''bk'', Dir False [])]"

text \<open>Four source directories without a regular file: one with a subdirectory that cannot
  be listed; one beside a backup directory that is a regular file; one beside a backup
  directory in which \<^verbatim>\<open>backup_history.txt\<close> is a directory; one whose name holds a
  newline.\<close>

definition tree_unlistable_source :: node where
  "tree_unlistable_source =
     Dir True [(''src'', Dir True [(''sub'', Dir False [])]), (''bk'', Dir True [])]"

definition tree_backup_root_file :: node where
  "tree_backup_root_file = Dir True [(''src'', Dir True []), (''bk'', File [] True)]"



text \<open>The backup of 1 January holds the regular file \<^verbatim>\<open>x\<close>; in the source, \<^verbatim>\<open>x\<close> is now
  a directory that holds \<^verbatim>\<open>y.txt\<close>.\<close>

definition tree_blocked :: node where
  "tree_blocked =
     Dir True
       [(''src'', Dir True [(''x'', Dir True [(''y.txt'', File ''new'' True)])]),
        (''bk'', Dir True
           [(''backup_20240101_000000'', Dir True [(''x'', File ''old'' True)])])]"

text \<open>A source directory with two readable files and one that cannot be opened, and an
  environment in which \<^verbatim>\<open>/src/a.txt\<close> cannot be copied; the records of the two readable
  files.\<close>

definition one_fault_env :: env where
  "one_fault_env = plain_env\<lparr>copy_permitted := (\<lambda>from to. from \<noteq> [''src'', ''a.txt''])\<rparr>"

definition tree_two_files :: node where
  "tree_two_files =
     Dir True
       [(''src'', Dir True [(''a.txt'', File ''one'' True), (''secret'', File ''two'' False),
                            (''b.txt'', File ''three'' True)]),
        (''bk'', Dir True [])]"

definition a_txt :: FileInfo where
  "a_txt = \<lparr>path = [''src'', ''a.txt''], md5 = ''one'', file_size = 3\<rparr>"

definition b_txt :: FileInfo where
  "b_txt = \<lparr>path = [''src'', ''b.txt''], md5 = ''three'', file_size = 5\<rparr>"

section \<open>Lemmas: scanning, exceptions, counts\<close>

lemma scan_entries_frame:
  "scan_entries e ys acc w = (fs, w') \<Longrightarrow>
     root w' = root w \<and> ops w' = ops w \<and> backup_history w' = backup_history w"
  by (induction ys arbitrary: acc w) (auto simp: say_def split: sum.splits if_splits)

lemma scan_directory_frame:
  "scan_directory e d w = (r, w') \<Longrightarrow>
     root w' = root w \<and> ops w' = ops w \<and> backup_history w' = backup_history w"
  by (auto simp: scan_directory_def split: prod.splits option.splits dest: scan_entries_frame)

lemma walk_exn: "walk p es = (ys, Some ex) \<Longrightarrow> directory_fault ex"
  by (induction p es arbitrary: ys rule: walk.induct)
     (auto simp: directory_fault_def split: prod.splits option.splits if_splits)

lemma scan_directory_exn: "scan_directory e d w = (Inl ex, w') \<Longrightarrow> directory_fault ex"
  by (auto simp: scan_directory_def recursive_directory_iterator_def directory_fault_def
      split: prod.splits option.splits node.splits bool.splits dest: walk_exn)

lemma create_directories_exn: "create_directories p t = Inl ex \<Longrightarrow> directory_fault ex"
  by (auto simp: create_directories_def directory_fault_def split: option.splits)

lemma copy_files_exn: "copy_files e src cur fis n w = (Inl ex, w') \<Longrightarrow> directory_fault ex"
  by (induction fis arbitrary: n w)
     (auto simp: Let_def split: sum.splits dest: create_directories_exn)

lemma link_files_exn:
  "link_files e src latest cur sfs bfs w = (Some ex, w') \<Longrightarrow> directory_fault ex"
  by (induction bfs arbitrary: w)
     (auto simp: Let_def split: sum.splits if_splits dest: create_directories_exn)

lemma find_backups_exn: "find_backups t bak = Inl ex \<Longrightarrow> directory_fault ex"
  by (auto simp: find_backups_def directory_iterator_def directory_fault_def
      split: sum.splits option.splits node.splits bool.splits)

lemma create_backup_exn: "create_backup e src bak w = (Inl ex, w') \<Longrightarrow> directory_fault ex"
  by (auto simp: create_backup_def Let_def split: if_splits sum.splits prod.splits
      dest: create_directories_exn scan_directory_exn copy_files_exn)

lemma write_incremental_exn:
  "write_incremental e src bak latest sfs bfs tb w = (Inl ex, w') \<Longrightarrow> directory_fault ex"
  by (auto simp: write_incremental_def Let_def split: if_splits sum.splits prod.splits option.splits
      dest: create_directories_exn copy_files_exn link_files_exn)

lemma incremental_backup_exn:
  "incremental_backup e src bak w = (Inl ex, w') \<Longrightarrow> directory_fault ex"
  by (auto simp: incremental_backup_def Let_def split: if_splits sum.splits prod.splits
      dest: find_backups_exn create_backup_exn scan_directory_exn write_incremental_exn)

lemma from_source_simps [simp]:
  "from_source (Copied_from_source a b)"
  "\<not> from_source (Linked_from_backup a b)"
  "\<not> from_source (Copied_from_backup a b)"
  by (simp_all add: from_source_def)

lemma copy_files_ops:
  "copy_files e src cur fis n w = (Inr n', w') \<Longrightarrow>
     \<exists>new. ops w' = ops w @ new \<and> list_all from_source new \<and> n' = n + length new
        \<and> backup_history w' = backup_history w"
proof (induction fis arbitrary: n w)
  case Nil
  then show ?case by simp
next
  case (Cons a fis)
  let ?dest = "cur @ relative (path a) src"
  from Cons.prems obtain t where
    t: "create_directories (parent_path ?dest) (root w) = Inr t"
    by (auto simp: Let_def split: sum.splits)
  show ?case
  proof (cases "copy_file e (path a) ?dest t")
    case (Inl ex)
    with Cons.prems t have
      "copy_files e src cur fis n (say (Cannot_copy (relative (path a) src) ex) (w\<lparr>root := t\<rparr>))
         = (Inr n', w')"
      by (simp add: Let_def)
    from Cons.IH [OF this] show ?thesis by (simp add: say_def)
  next
    case (Inr t')
    with Cons.prems t have
      "copy_files e src cur fis (Suc n)
         (w\<lparr>root := t', ops := ops w @ [Copied_from_source (path a) ?dest]\<rparr>) = (Inr n', w')"
      by (simp add: Let_def)
    from Cons.IH [OF this] obtain new where
      "ops w' = (ops w @ [Copied_from_source (path a) ?dest]) @ new" "list_all from_source new"
      "n' = Suc n + length new" "backup_history w' = backup_history w"
      by auto
    then show ?thesis
      by (intro exI [of _ "Copied_from_source (path a) ?dest # new"]) simp
  qed
qed

lemma link_or_copy_ops:
  "\<exists>new. ops (link_or_copy e b rel dest t w) = ops w @ new \<and> list_all (\<lambda>x. \<not> from_source x) new"
  by (auto simp: link_or_copy_def say_def split: sum.splits)

lemma link_or_copy_history [simp]:
  "backup_history (link_or_copy e b rel dest t w) = backup_history w"
  by (simp add: link_or_copy_def say_def split: sum.splits)

lemma link_files_ops:
  "link_files e src latest cur sfs bfs w = (r, w') \<Longrightarrow>
     \<exists>new. ops w' = ops w @ new \<and> list_all (\<lambda>x. \<not> from_source x) new
        \<and> backup_history w' = backup_history w"
proof (induction bfs arbitrary: w)
  case Nil
  then show ?case by simp
next
  case (Cons b bfs)
  let ?rel = "relative (path b) latest"
  let ?dest = "cur @ ?rel"
  show ?case
  proof (cases "need_copy src sfs ?rel b")
    case False
    with Cons.prems have "link_files e src latest cur sfs bfs w = (r, w')"
      by (simp add: Let_def)
    from Cons.IH [OF this] show ?thesis .
  next
    case True
    show ?thesis
    proof (cases "create_directories (parent_path ?dest) (root w)")
      case (Inl ex)
      with Cons.prems True show ?thesis by (simp add: Let_def)
    next
      case (Inr t)
      with Cons.prems True have
        "link_files e src latest cur sfs bfs (link_or_copy e b ?rel ?dest t w) = (r, w')"
        by (simp add: Let_def)
      from Cons.IH [OF this] obtain new where
        new: "ops w' = ops (link_or_copy e b ?rel ?dest t w) @ new"
          "list_all (\<lambda>x. \<not> from_source x) new" "backup_history w' = backup_history w"
        by auto
      from link_or_copy_ops [of e b ?rel ?dest t w] obtain new' where
        "ops (link_or_copy e b ?rel ?dest t w) = ops w @ new'"
        "list_all (\<lambda>x. \<not> from_source x) new'"
        by auto
      with new show ?thesis
        by (intro exI [of _ "new' @ new"]) simp
    qed
  qed
qed

lemma incremental_backup_True:
  assumes "incremental_backup e src bak w = (Inr True, w')"
  obtains (full) "find_backups (root w) bak = Inr []"
      "create_backup e src bak (say No_previous_backup w) = (Inr True, w')"
  | (incremental) backups source_files w1 backup_files w2 where
      "find_backups (root w) bak = Inr backups" "backups \<noteq> []"
      "scan_directory e src (say Scanning_changes (say (Found_latest (last (sort backups))) w))
         = (Inr source_files, w1)"
      "scan_directory e (last (sort backups)) w1 = (Inr backup_files, w2)"
      "files_to_backup src source_files backup_files \<noteq> []"
      "write_incremental e src bak (last (sort backups)) source_files backup_files
         (files_to_backup src source_files backup_files) w2 = (Inr True, w')"
  using assms
  by (auto simp: incremental_backup_def Let_def split: if_splits sum.splits prod.splits)

lemma create_backup_count:
  assumes "create_backup e src bak w = (Inr True, w')"
  shows "backup_history w' \<noteq> [] \<and>
     copied_files (last (backup_history w')) = length (filter from_source (new_ops w w'))"
proof -
  from assms obtain t source_files w1 copied w2 where
    scan: "scan_directory e src (say (Scanning_source src) (w\<lparr>root := t\<rparr>)) = (Inr source_files, w1)"
    and copy: "copy_files e src (bak @ [''backup_'' @ current_timestamp e]) source_files 0
                 (say Copying_files w1) = (Inr copied, w2)"
    and hist: "backup_history w' = backup_history w2 @
                 [\<lparr>timestamp = current_timestamp e,
                   backup_path = bak @ [''backup_'' @ current_timestamp e],
                   file_count = length source_files, copied_files = copied,
                   source_dir = src, is_incremental = False, based_on = []\<rparr>]"
    and ops: "ops w' = ops w2"
    by (auto simp: create_backup_def Let_def say_def split: if_splits sum.splits prod.splits)
  from scan_directory_frame [OF scan] have "ops w1 = ops w" by (simp add: say_def)
  moreover from copy_files_ops [OF copy] obtain new where
    "ops w2 = ops w1 @ new" "list_all from_source new" "copied = length new"
    by (auto simp: say_def)
  ultimately show ?thesis using hist ops
    by (simp add: new_ops_def list_all_iff)
qed

lemma write_incremental_count:
  assumes "write_incremental e src bak latest sfs bfs tb w = (Inr True, w')"
  shows "backup_history w' \<noteq> [] \<and>
     copied_files (last (backup_history w')) = length (filter from_source (new_ops w w'))"
proof -
  let ?cur = "bak @ [''backup_'' @ current_timestamp e]"
  from assms obtain t copied w1 w2 where
    copy: "copy_files e src ?cur tb 0 (say (Backing_up (length tb)) (w\<lparr>root := t\<rparr>)) = (Inr copied, w1)"
    and link: "link_files e src latest ?cur sfs bfs (say Processing_unmodified w1) = (None, w2)"
    and hist: "backup_history w' = backup_history w2 @
                 [\<lparr>timestamp = current_timestamp e, backup_path = ?cur,
                   file_count = length sfs, copied_files = copied,
                   source_dir = src, is_incremental = True, based_on = filename latest\<rparr>]"
    and ops: "ops w' = ops w2"
    by (auto simp: write_incremental_def Let_def say_def
        split: if_splits sum.splits prod.splits option.splits)
  from copy_files_ops [OF copy] obtain new where
    new: "ops w1 = ops w @ new" "list_all from_source new" "copied = length new"
    by (auto simp: say_def)
  from link_files_ops [OF link] obtain new' where
    "ops w2 = ops w1 @ new'" "list_all (\<lambda>x. \<not> from_source x) new'"
    by (auto simp: say_def)
  with new show ?thesis using hist ops
    by (simp add: new_ops_def list_all_iff)
qed

lemma incremental_backup_count:
  assumes "incremental_backup e src bak w = (Inr True, w')"
  shows "backup_history w' \<noteq> [] \<and>
     copied_files (last (backup_history w')) = length (filter from_source (new_ops w w'))"
  using assms
proof (cases rule: incremental_backup_True)
  case full
  from create_backup_count [OF full(2)] show ?thesis by (simp add: new_ops_def say_def)
next
  case (incremental backups source_files w1 backup_files w2)
  from scan_directory_frame [OF incremental(3)] scan_directory_frame [OF incremental(4)]
  have "ops w2 = ops w" by (simp add: say_def)
  with write_incremental_count [OF incremental(6)] show ?thesis by (simp add: new_ops_def)
qed

lemma create_backup_by_copy:
  assumes "create_backup e src bak w = (Inr True, w')"
  shows "filter by_copy (new_ops w w') = filter from_source (new_ops w w')"
proof -
  from assms obtain t source_files w1 copied w2 where
    scan: "scan_directory e src (say (Scanning_source src) (w\<lparr>root := t\<rparr>)) = (Inr source_files, w1)"
    and copy: "copy_files e src (bak @ [''backup_'' @ current_timestamp e]) source_files 0
                 (say Copying_files w1) = (Inr copied, w2)"
    and ops: "ops w' = ops w2"
    by (auto simp: create_backup_def Let_def say_def split: if_splits sum.splits prod.splits)
  from scan_directory_frame [OF scan] have "ops w1 = ops w" by (simp add: say_def)
  moreover from copy_files_ops [OF copy] obtain new where
    "ops w2 = ops w1 @ new" "list_all from_source new"
    by (auto simp: say_def)
  moreover have "list_all from_source new \<Longrightarrow> filter by_copy new = filter from_source new" for new
    by (induction new) (auto simp: from_source_def by_copy_def split: file_op.splits)
  ultimately show ?thesis using ops by (simp add: new_ops_def)
qed

section \<open>Lemmas: every file is attempted\<close>

lemma is_cannot_copy_simp [simp]: "is_cannot_copy (Cannot_copy p ex)"
  by (simp add: is_cannot_copy_def)

lemma is_cannot_copy_other [simp]:
  "\<not> is_cannot_copy Error_source_missing"
  "\<not> is_cannot_copy (Cannot_process p ex)"
  "\<not> is_cannot_copy (Scanning_source p)"
  "\<not> is_cannot_copy Copying_files"
  "\<not> is_cannot_copy (Backup_done p)"
  "\<not> is_cannot_copy (Processed n m)"
  "\<not> is_cannot_copy No_previous_backup"
  "\<not> is_cannot_copy (Found_latest p)"
  "\<not> is_cannot_copy Scanning_changes"
  "\<not> is_cannot_copy No_changes"
  "\<not> is_cannot_copy (Backing_up n)"
  "\<not> is_cannot_copy Processing_unmodified"
  "\<not> is_cannot_copy (Incremental_done p)"
  "\<not> is_cannot_copy (Processed_changed n)"
  by (simp_all add: is_cannot_copy_def)

lemma scan_entries_all:
  "scan_entries e ys acc w =
     (acc @ fingerprinted e (root w) ys, w\<lparr>console := console w @ not_fingerprinted e (root w) ys\<rparr>)"
proof (induction ys arbitrary: acc w)
  case Nil
  then show ?case by (simp add: fingerprinted_def not_fingerprinted_def)
next
  case (Cons y ys)
  obtain p n where y: "y = (p, n)" by (cases y)
  have f: "fingerprinted e t ((p, n) # ys) =
      (if is_regular_file n then
         (case calculate_md5 e t p of
            Inr h \<Rightarrow> [\<lparr>path = p, md5 = h, file_size = length (content n)\<rparr>] | Inl ex \<Rightarrow> [])
       else []) @ fingerprinted e t ys" for t
    by (simp add: fingerprinted_def)
  have g: "not_fingerprinted e t ((p, n) # ys) =
      (if is_regular_file n then
         (case calculate_md5 e t p of Inr h \<Rightarrow> [] | Inl ex \<Rightarrow> [Cannot_process p ex])
       else []) @ not_fingerprinted e t ys" for t
    by (simp add: not_fingerprinted_def)
  show ?case
    by (simp add: y f g Cons.IH say_def split: sum.splits)
qed

lemma scan_directory_all:
  "scan_directory e d w =
     (case recursive_directory_iterator (root w) d of
        (ys, ex) \<Rightarrow>
          ((case ex of None \<Rightarrow> Inr (fingerprinted e (root w) ys) | Some x \<Rightarrow> Inl x),
           w\<lparr>console := console w @ not_fingerprinted e (root w) ys\<rparr>))"
  by (simp add: scan_directory_def scan_entries_all split: prod.splits option.splits)

lemma not_fingerprinted_no_copy_message:
  "filter is_cannot_copy (not_fingerprinted e t ys) = []"
proof (induction ys)
  case Nil
  show ?case by (simp add: not_fingerprinted_def)
next
  case (Cons y ys)
  obtain p n where y: "y = (p, n)" by (cases y)
  have g: "not_fingerprinted e t ((p, n) # ys) =
      (if is_regular_file n then
         (case calculate_md5 e t p of Inr h \<Rightarrow> [] | Inl ex \<Rightarrow> [Cannot_process p ex])
       else []) @ not_fingerprinted e t ys"
    by (simp add: not_fingerprinted_def)
  show ?case
  proof (cases "is_regular_file n")
    case False
    with Cons.IH show ?thesis by (simp add: y g)
  next
    case True
    show ?thesis
    proof (cases "calculate_md5 e t p")
      case (Inl ex)
      with True Cons.IH show ?thesis by (simp add: y g is_cannot_copy_def)
    next
      case (Inr h)
      with True Cons.IH show ?thesis by (simp add: y g)
    qed
  qed
qed

lemma scan_directory_console:
  "scan_directory e d w = (r, w') \<Longrightarrow>
     \<exists>msgs. console w' = console w @ msgs \<and> filter is_cannot_copy msgs = []"
  by (auto simp: scan_directory_all not_fingerprinted_no_copy_message split: prod.splits)

lemma copy_files_attempts:
  "copy_files e src cur fis n w = (Inr n', w') \<Longrightarrow>
     \<exists>new msgs. ops w' = ops w @ new \<and> console w' = console w @ msgs
        \<and> list_all is_cannot_copy msgs \<and> length new + length msgs = length fis"
proof (induction fis arbitrary: n w)
  case Nil
  then show ?case by simp
next
  case (Cons a fis)
  let ?rel = "relative (path a) src"
  let ?dest = "cur @ ?rel"
  from Cons.prems obtain t where
    t: "create_directories (parent_path ?dest) (root w) = Inr t"
    by (auto simp: Let_def split: sum.splits)
  show ?case
  proof (cases "copy_file e (path a) ?dest t")
    case (Inl ex)
    with Cons.prems t have
      "copy_files e src cur fis n (say (Cannot_copy ?rel ex) (w\<lparr>root := t\<rparr>)) = (Inr n', w')"
      by (simp add: Let_def)
    from Cons.IH [OF this] obtain new msgs where
      "ops w' = ops w @ new" "console w' = (console w @ [Cannot_copy ?rel ex]) @ msgs"
      "list_all is_cannot_copy msgs" "length new + length msgs = length fis"
      by (auto simp: say_def)
    then show ?thesis
      by (intro exI [of _ new] exI [of _ "Cannot_copy ?rel ex # msgs"]) simp
  next
    case (Inr t')
    with Cons.prems t have
      "copy_files e src cur fis (Suc n)
         (w\<lparr>root := t', ops := ops w @ [Copied_from_source (path a) ?dest]\<rparr>) = (Inr n', w')"
      by (simp add: Let_def)
    from Cons.IH [OF this] obtain new msgs where
      "ops w' = (ops w @ [Copied_from_source (path a) ?dest]) @ new" "console w' = console w @ msgs"
      "list_all is_cannot_copy msgs" "length new + length msgs = length fis"
      by auto
    then show ?thesis
      by (intro exI [of _ "Copied_from_source (path a) ?dest # new"] exI [of _ msgs]) simp
  qed
qed

lemma link_or_copy_attempt:
  "\<exists>new msgs. ops (link_or_copy e b rel d t w) = ops w @ new
      \<and> console (link_or_copy e b rel d t w) = console w @ msgs
      \<and> list_all is_cannot_copy msgs \<and> length new + length msgs = 1"
  by (auto simp: link_or_copy_def say_def split: sum.splits)

lemma link_files_attempts:
  "link_files e src latest cur sfs bfs w = (None, w') \<Longrightarrow>
     \<exists>new msgs. ops w' = ops w @ new \<and> console w' = console w @ msgs
        \<and> list_all is_cannot_copy msgs
        \<and> length new + length msgs
            = length (filter (\<lambda>b. need_copy src sfs (relative (path b) latest) b) bfs)"
proof (induction bfs arbitrary: w)
  case Nil
  then show ?case by simp
next
  case (Cons b bfs)
  let ?rel = "relative (path b) latest"
  let ?dest = "cur @ ?rel"
  show ?case
  proof (cases "need_copy src sfs ?rel b")
    case False
    with Cons.prems have "link_files e src latest cur sfs bfs w = (None, w')"
      by (simp add: Let_def)
    from Cons.IH [OF this] False show ?thesis by simp
  next
    case True
    with Cons.prems obtain t where
      t: "create_directories (parent_path ?dest) (root w) = Inr t"
      and run: "link_files e src latest cur sfs bfs (link_or_copy e b ?rel ?dest t w) = (None, w')"
      by (auto simp: Let_def split: sum.splits)
    from Cons.IH [OF run] obtain new msgs where
      rest: "ops w' = ops (link_or_copy e b ?rel ?dest t w) @ new"
        "console w' = console (link_or_copy e b ?rel ?dest t w) @ msgs"
        "list_all is_cannot_copy msgs"
        "length new + length msgs
            = length (filter (\<lambda>b. need_copy src sfs (relative (path b) latest) b) bfs)"
      by auto
    from link_or_copy_attempt [of e b ?rel ?dest t w] obtain new0 msgs0 where
      "ops (link_or_copy e b ?rel ?dest t w) = ops w @ new0"
      "console (link_or_copy e b ?rel ?dest t w) = console w @ msgs0"
      "list_all is_cannot_copy msgs0" "length new0 + length msgs0 = 1"
      by auto
    with rest True show ?thesis
      by (intro exI [of _ "new0 @ new"] exI [of _ "msgs0 @ msgs"]) simp
  qed
qed

lemma create_backup_attempts:
  assumes "create_backup e src bak w = (Inr True, w')"
  shows "length (new_ops w w') + length (filter is_cannot_copy (new_console w w'))
           = file_count (last (backup_history w'))"
proof -
  let ?cur = "bak @ [''backup_'' @ current_timestamp e]"
  from assms obtain t source_files w1 copied w2 where
    scan: "scan_directory e src (say (Scanning_source src) (w\<lparr>root := t\<rparr>)) = (Inr source_files, w1)"
    and copy: "copy_files e src ?cur source_files 0 (say Copying_files w1) = (Inr copied, w2)"
    and hist: "backup_history w' = backup_history w2 @
                 [\<lparr>timestamp = current_timestamp e, backup_path = ?cur,
                   file_count = length source_files, copied_files = copied,
                   source_dir = src, is_incremental = False, based_on = []\<rparr>]"
    and ops: "ops w' = ops w2"
    and console: "console w' = console w2 @ [Backup_done ?cur, Processed copied (length source_files)]"
    by (auto simp: create_backup_def Let_def say_def split: if_splits sum.splits prod.splits)
  from scan_directory_frame [OF scan] have o1: "ops w1 = ops w" by (simp add: say_def)
  from scan_directory_console [OF scan] obtain msgs0 where
    c1: "console w1 = (console w @ [Scanning_source src]) @ msgs0" "filter is_cannot_copy msgs0 = []"
    by (auto simp: say_def)
  from copy_files_attempts [OF copy] obtain new msgs where
    c2: "ops w2 = ops w1 @ new" "console w2 = (console w1 @ [Copying_files]) @ msgs"
      "list_all is_cannot_copy msgs" "length new + length msgs = length source_files"
    by (auto simp: say_def)
  from c2(3) have "filter is_cannot_copy msgs = msgs" by (simp add: list_all_iff)
  with o1 c1 c2 ops console hist show ?thesis
    by (simp add: new_ops_def new_console_def)
qed

lemma write_incremental_attempts:
  assumes "write_incremental e src bak latest sfs bfs tb w = (Inr True, w')"
  shows "length (new_ops w w') + length (filter is_cannot_copy (new_console w w'))
           = length tb + length (filter (\<lambda>b. need_copy src sfs (relative (path b) latest) b) bfs)"
proof -
  let ?cur = "bak @ [''backup_'' @ current_timestamp e]"
  from assms obtain t copied w1 w2 where
    copy: "copy_files e src ?cur tb 0 (say (Backing_up (length tb)) (w\<lparr>root := t\<rparr>)) = (Inr copied, w1)"
    and link: "link_files e src latest ?cur sfs bfs (say Processing_unmodified w1) = (None, w2)"
    and ops: "ops w' = ops w2"
    and console: "console w' = console w2 @ [Incremental_done ?cur, Processed_changed copied]"
    by (auto simp: write_incremental_def Let_def say_def
        split: if_splits sum.splits prod.splits option.splits)
  from copy_files_attempts [OF copy] obtain new msgs where
    c1: "ops w1 = ops w @ new" "console w1 = (console w @ [Backing_up (length tb)]) @ msgs"
      "list_all is_cannot_copy msgs" "length new + length msgs = length tb"
    by (auto simp: say_def)
  from link_files_attempts [OF link] obtain new' msgs' where
    c2: "ops w2 = ops w1 @ new'" "console w2 = (console w1 @ [Processing_unmodified]) @ msgs'"
      "list_all is_cannot_copy msgs'"
      "length new' + length msgs'
         = length (filter (\<lambda>b. need_copy src sfs (relative (path b) latest) b) bfs)"
    by (auto simp: say_def)
  from c1(3) c2(3) have "filter is_cannot_copy msgs = msgs" "filter is_cannot_copy msgs' = msgs'"
    by (simp_all add: list_all_iff)
  with c1 c2 ops console show ?thesis
    by (simp add: new_ops_def new_console_def)
qed

lemma new_console_trans:
  assumes "console v = console w @ msgs" "filter is_cannot_copy msgs = []"
    and "\<exists>more. console w' = console v @ more"
  shows "filter is_cannot_copy (new_console w w') = filter is_cannot_copy (new_console v w')"
  using assms by (auto simp: new_console_def)

lemma write_incremental_console:
  "write_incremental e src bak latest sfs bfs tb w = (Inr True, w') \<Longrightarrow>
     \<exists>more. console w' = console w @ more"
  by (auto simp: write_incremental_def Let_def say_def
      split: if_splits sum.splits prod.splits option.splits
      dest!: copy_files_attempts link_files_attempts)

lemma incremental_backup_attempts:
  assumes run: "incremental_backup e src bak w = (Inr True, w')"
    and prior: "find_backups (root w) bak = Inr backups" "backups \<noteq> []"
    and scan_source:
      "scan_directory e src (say Scanning_changes (say (Found_latest (last (sort backups))) w))
         = (Inr source_files, w1)"
    and scan_backup: "scan_directory e (last (sort backups)) w1 = (Inr backup_files, w2)"
  shows "length (new_ops w w') + length (filter is_cannot_copy (new_console w w'))
           = length (files_to_backup src source_files backup_files)
             + length (filter (\<lambda>b. need_copy src source_files
                                 (relative (path b) (last (sort backups))) b) backup_files)"
  using run
proof (cases rule: incremental_backup_True)
  case full
  with prior show ?thesis by simp
next
  case (incremental backups' source_files' w1' backup_files' w2')
  with prior scan_source scan_backup have
    inc: "write_incremental e src bak (last (sort backups)) source_files backup_files
              (files_to_backup src source_files backup_files) w2 = (Inr True, w')"
    by simp
  from scan_directory_frame [OF scan_source] scan_directory_frame [OF scan_backup]
  have o: "ops w2 = ops w" by (simp add: say_def)
  from scan_directory_console [OF scan_source] scan_directory_console [OF scan_backup]
  obtain msgs where c: "console w2 = console w @ msgs" "filter is_cannot_copy msgs = []"
    by (auto simp: say_def)
  from new_console_trans [OF c write_incremental_console [OF inc]]
  have "filter is_cannot_copy (new_console w w') = filter is_cannot_copy (new_console w2 w')" .
  with write_incremental_attempts [OF inc] o show ?thesis
    by (simp add: new_ops_def)
qed

lemma create_backup_False: "create_backup e src bak w = (Inr False, w') \<Longrightarrow> \<not> exists (root w) src"
  by (auto simp: create_backup_def Let_def split: if_splits sum.splits prod.splits)

lemma write_incremental_not_False:
  "write_incremental e src bak latest sfs bfs tb w \<noteq> (Inr False, w')"
  by (auto simp: write_incremental_def Let_def split: if_splits sum.splits prod.splits option.splits)

lemma incremental_backup_False:
  "incremental_backup e src bak w = (Inr False, w') \<Longrightarrow>
     \<not> exists (root w) src \<or> last (console w') = No_changes"
  by (auto simp: incremental_backup_def Let_def say_def write_incremental_not_False
      split: if_splits sum.splits prod.splits dest: create_backup_False)

section \<open>Lemmas: the file system\<close>

lemma map_of_update [simp]: "map_of (AList.update k v al) k' = (if k' = k then Some v else map_of al k')"
  by (simp add: update_conv')

lemma map_of_snoc [simp]:
  "map_of (es @ [(x, n)]) y = (case map_of es y of None \<Rightarrow> if y = x then Some n else None | Some v \<Rightarrow> Some v)"
  by (induction es) auto

lemma lookup_File [simp]: "lookup (File c r) p = (if p = [] then Some (File c r) else None)"
  by (cases p) auto





























section \<open>Lemmas: files taken over from the latest backup\<close>

















section \<open>Lemmas: the console does not influence a run\<close>

lemma scan_entries_agree:
  "same_effects w v \<Longrightarrow>
     fst (scan_entries e ys acc w) = fst (scan_entries e ys acc v)
     \<and> same_effects (snd (scan_entries e ys acc w)) (snd (scan_entries e ys acc v))"
proof (induction ys arbitrary: acc w v)
  case Nil
  then show ?case by simp
next
  case (Cons y ys)
  obtain p n where y: "y = (p, n)" by (cases y)
  from Cons.prems have r: "root w = root v" by (simp add: same_effects_def)
  show ?case
  proof (cases "is_regular_file n")
    case False
    with y Cons.IH [OF Cons.prems] show ?thesis by simp
  next
    case True
    show ?thesis
    proof (cases "calculate_md5 e (root v) p")
      case (Inr h)
      with y True r Cons.IH [OF Cons.prems] show ?thesis by simp
    next
      case (Inl ex)
      from Cons.prems have "same_effects (say (Cannot_process p ex) w) (say (Cannot_process p ex) v)"
        by (simp add: same_effects_def say_def)
      from Cons.IH [OF this] y True r Inl show ?thesis by simp
    qed
  qed
qed

lemma scan_directory_agree:
  "same_effects w v \<Longrightarrow>
     fst (scan_directory e d w) = fst (scan_directory e d v)
     \<and> same_effects (snd (scan_directory e d w)) (snd (scan_directory e d v))"
  using scan_entries_agree [of w v e "fst (recursive_directory_iterator (root v) d)" "[]"]
  by (auto simp: scan_directory_def same_effects_def split: prod.splits option.splits)

lemma copy_files_agree:
  "same_effects w v \<Longrightarrow>
     fst (copy_files e src cur fis n w) = fst (copy_files e src cur fis n v)
     \<and> same_effects (snd (copy_files e src cur fis n w)) (snd (copy_files e src cur fis n v))"
proof (induction fis arbitrary: n w v)
  case Nil
  then show ?case by simp
next
  case (Cons a fis)
  let ?dest = "cur @ relative (path a) src"
  from Cons.prems have r: "root w = root v" by (simp add: same_effects_def)
  show ?case
  proof (cases "create_directories (parent_path ?dest) (root v)")
    case (Inl ex)
    with r Cons.prems show ?thesis by (simp add: Let_def)
  next
    case t: (Inr t)
    show ?thesis
    proof (cases "copy_file e (path a) ?dest t")
      case (Inl ex)
      from Cons.prems have
        "same_effects (say (Cannot_copy (relative (path a) src) ex) (w\<lparr>root := t\<rparr>))
                      (say (Cannot_copy (relative (path a) src) ex) (v\<lparr>root := t\<rparr>))"
        by (simp add: same_effects_def say_def)
      from Cons.IH [OF this] r t Inl show ?thesis by (simp add: Let_def)
    next
      case (Inr t')
      from Cons.prems have
        "same_effects (w\<lparr>root := t', ops := ops w @ [Copied_from_source (path a) ?dest]\<rparr>)
                      (v\<lparr>root := t', ops := ops v @ [Copied_from_source (path a) ?dest]\<rparr>)"
        by (simp add: same_effects_def)
      from Cons.IH [OF this] r t Inr show ?thesis by (simp add: Let_def)
    qed
  qed
qed

lemma create_backup_agree:
  assumes "same_effects w v"
  shows "fst (create_backup e src bak w) = fst (create_backup e src bak v)
     \<and> same_effects (snd (create_backup e src bak w)) (snd (create_backup e src bak v))"
proof (cases "exists (root v) src")
  case False
  with assms show ?thesis by (simp add: create_backup_def same_effects_def say_def)
next
  case True
  let ?cur = "bak @ [''backup_'' @ current_timestamp e]"
  from assms have r: "root w = root v" by (simp add: same_effects_def)
  show ?thesis
  proof (cases "create_directories ?cur (root v)")
    case (Inl ex)
    with True r assms show ?thesis by (simp add: create_backup_def Let_def)
  next
    case (Inr t)
    let ?w0 = "say (Scanning_source src) (w\<lparr>root := t\<rparr>)"
    let ?v0 = "say (Scanning_source src) (v\<lparr>root := t\<rparr>)"
    from assms have "same_effects ?w0 ?v0" by (simp add: same_effects_def say_def)
    from scan_directory_agree [OF this, of e src]
    have scan: "fst (scan_directory e src ?w0) = fst (scan_directory e src ?v0)"
      "same_effects (snd (scan_directory e src ?w0)) (snd (scan_directory e src ?v0))"
      by simp_all
    obtain rw w1 where w1: "scan_directory e src ?w0 = (rw, w1)" by (cases "scan_directory e src ?w0")
    obtain rv v1 where v1: "scan_directory e src ?v0 = (rv, v1)" by (cases "scan_directory e src ?v0")
    from scan w1 v1 have eq: "rw = rv" and s1: "same_effects w1 v1" by simp_all
    show ?thesis
    proof (cases rv)
      case (Inl ex)
      with True r Inr w1 v1 eq s1 show ?thesis by (simp add: create_backup_def Let_def)
    next
      case fs: (Inr source_files)
      from s1 have "same_effects (say Copying_files w1) (say Copying_files v1)"
        by (simp add: same_effects_def say_def)
      from copy_files_agree [OF this, of e src ?cur source_files 0]
      obtain rc w2 v2 where
        w2: "copy_files e src ?cur source_files 0 (say Copying_files w1) = (rc, w2)"
        and v2: "copy_files e src ?cur source_files 0 (say Copying_files v1) = (rc, v2)"
        and s2: "same_effects w2 v2"
        by (metis prod.collapse)
      with True r Inr w1 v1 eq fs show ?thesis
        by (cases rc) (simp_all add: create_backup_def Let_def same_effects_def say_def)
    qed
  qed
qed

section \<open>Lemmas: the line of a full backup without files\<close>











section \<open>The claims\<close>

text \<open>C1, at concrete inputs. \<^verbatim>\<open>/src/f.txt\<close> has the bytes of the latest backup's
  \<^verbatim>\<open>f.txt\<close>. The incremental backup copies it from the source tree again and links
  nothing: the comparison of line 189 takes the backup file's path relative to its
  grandparent directory, \<^verbatim>\<open>backup_20240101_000000/f.txt\<close>, which no relative path of a
  top-level source file equals. One directory down, the unchanged \<^verbatim>\<open>/src/a/f.txt\<close> is
  not copied, and not linked either: the only write of the run is the copy of the new
  \<^verbatim>\<open>g.txt\<close>, since \<^verbatim>\<open>need_copy\<close> (lines 229 to 236) is false for a file of the latest
  backup that a source file matches.\<close>

theorem unchanged_file_copied_again:
  "ops (snd (incremental_backup plain_env [''src''] [''bk''] (start tree_unchanged)))
     = [Copied_from_source [''src'', ''f.txt''] [''bk'', ''backup_20240102_000000'', ''f.txt'']]
   \<and> ops (snd (incremental_backup plain_env [''src''] [''bk''] (start tree_nested_unchanged)))
     = [Copied_from_source [''src'', ''g.txt''] [''bk'', ''backup_20240102_000000'', ''g.txt'']]"
  by code_simp

text \<open>C2, as stated, fails: after the incremental backup of a modified file the record
  says one file was written, and two were written by copying: the file from the source
  tree and, since the link onto it failed, the file from the latest backup.\<close>

theorem fallback_copy_not_counted:
  "copied_files (last (backup_history
      (snd (incremental_backup plain_env [''src''] [''bk''] (start tree_modified))))) = 1
   \<and> length (filter by_copy
      (ops (snd (incremental_backup plain_env [''src''] [''bk''] (start tree_modified))))) = 2"
  by code_simp

text \<open>C2, amended. The record of a completed full backup counts the files written by
  copying. The record of a completed incremental backup counts the files copied from the
  source tree; the copies made from the latest backup after a failed link are not
  counted.\<close>

theorem copied_files_counts_source_copies:
  "(create_backup e src bak w = (Inr True, w') \<longrightarrow>
      backup_history w' \<noteq> [] \<and>
      copied_files (last (backup_history w')) = length (filter by_copy (new_ops w w')))
   \<and> (incremental_backup e src bak w = (Inr True, w') \<longrightarrow>
      backup_history w' \<noteq> [] \<and>
      copied_files (last (backup_history w')) = length (filter from_source (new_ops w w')))"
  using create_backup_count create_backup_by_copy incremental_backup_count by metis

theorem copied_files_counts_source_copies_witness:
  "fst (create_backup plain_env [''src''] [''bk''] (start tree_modified)) = Inr True
   \<and> copied_files (last (backup_history
        (snd (create_backup plain_env [''src''] [''bk''] (start tree_modified)))))
      = length (filter by_copy (new_ops (start tree_modified)
          (snd (create_backup plain_env [''src''] [''bk''] (start tree_modified)))))
   \<and> fst (incremental_backup plain_env [''src''] [''bk''] (start tree_modified)) = Inr True
   \<and> copied_files (last (backup_history
        (snd (incremental_backup plain_env [''src''] [''bk''] (start tree_modified)))))
      = length (filter from_source (new_ops (start tree_modified)
          (snd (incremental_backup plain_env [''src''] [''bk''] (start tree_modified)))))"
proof -
  let ?full = "create_backup plain_env [''src''] [''bk''] (start tree_modified)"
  let ?incr = "incremental_backup plain_env [''src''] [''bk''] (start tree_modified)"
  have full: "fst ?full = Inr True"
    by code_simp
  have incr: "fst ?incr = Inr True"
    by code_simp
  from full have "?full = (Inr True, snd ?full)"
    by (metis prod.collapse)
  moreover from incr have "?incr = (Inr True, snd ?incr)"
    by (metis prod.collapse)
  ultimately show ?thesis
    using full incr
      copied_files_counts_source_copies
        [of plain_env "[''src'']" "[''bk'']" "start tree_modified" "snd ?full"]
      copied_files_counts_source_copies
        [of plain_env "[''src'']" "[''bk'']" "start tree_modified" "snd ?incr"]
    by blast
qed

text \<open>C3, as stated, fails: a run that finds no changes returns \<^verbatim>\<open>false\<close>, the value a
  run returns whose source directory is missing. The two are told apart by the line
  printed only.\<close>

theorem no_changes_returns_like_failure:
  "last (console (snd (incremental_backup plain_env [''src''] [''bk''] (start tree_no_changes))))
     = No_changes
   \<and> fst (incremental_backup plain_env [''src''] [''bk''] (start tree_no_changes))
     = fst (incremental_backup plain_env [''gone''] [''bk''] (start tree_no_changes))"
  by code_simp

text \<open>C3, amended. When the source exists, a latest backup is found, both scans end
  normally and no source file is classified as new or modified, the incremental backup
  prints that there are no changes and returns \<^verbatim>\<open>false\<close>, unlike a successful run and
  with another message than a failed one; the file system (so the set of snapshot
  directories and the history file) and \<^verbatim>\<open>backup_history\<close> are what they were.\<close>

theorem no_changes_outcome:
  assumes "exists (root w) src"
    and "find_backups (root w) bak = Inr backups"
    and "backups \<noteq> []"
    and "scan_directory e src (say Scanning_changes (say (Found_latest (last (sort backups))) w))
           = (Inr source_files, w1)"
    and "scan_directory e (last (sort backups)) w1 = (Inr backup_files, w2)"
    and "files_to_backup src source_files backup_files = []"
  shows "incremental_backup e src bak w = (Inr False, say No_changes w2)
       \<and> root (say No_changes w2) = root w
       \<and> backup_history (say No_changes w2) = backup_history w
       \<and> last (console (say No_changes w2)) = No_changes"
proof -
  from scan_directory_frame [OF assms(4)] scan_directory_frame [OF assms(5)]
  have "root w2 = root w" "backup_history w2 = backup_history w"
    by (simp_all add: say_def)
  with assms show ?thesis
    by (simp add: incremental_backup_def Let_def say_def)
qed

theorem no_changes_outcome_witness:
  "incremental_backup plain_env [''src''] [''bk''] (start tree_no_changes)
     = (Inr False,
        say No_changes (say Scanning_changes
          (say (Found_latest [''bk'', ''backup_20240101_000000'']) (start tree_no_changes))))
   \<and> root (say No_changes (say Scanning_changes
          (say (Found_latest [''bk'', ''backup_20240101_000000'']) (start tree_no_changes))))
       = tree_no_changes"
proof -
  let ?w = "start tree_no_changes"
  let ?latest = "[''bk'', ''backup_20240101_000000'']"
  let ?w1 = "say Scanning_changes (say (Found_latest ?latest) ?w)"
  let ?sfs = "[\<lparr>path = [''src'', ''a'', ''f.txt''], md5 = ''hello'', file_size = 5\<rparr>]"
  let ?bfs = "[\<lparr>path = ?latest @ [''a'', ''f.txt''], md5 = ''hello'', file_size = 5\<rparr>]"
  have 1: "exists (root ?w) [''src'']" by code_simp
  have 2: "find_backups (root ?w) [''bk''] = Inr [?latest]" by code_simp
  have 3: "[?latest] \<noteq> []" by simp
  have l: "last (sort [?latest]) = ?latest" by simp
  have 4: "scan_directory plain_env [''src'']
             (say Scanning_changes (say (Found_latest (last (sort [?latest]))) ?w)) = (Inr ?sfs, ?w1)"
    unfolding l by code_simp
  have 5: "scan_directory plain_env (last (sort [?latest])) ?w1 = (Inr ?bfs, ?w1)"
    unfolding l by code_simp
  have 6: "files_to_backup [''src''] ?sfs ?bfs = []" by code_simp
  from no_changes_outcome [OF 1 2 3 4 5 6] show ?thesis
    by (simp add: start_def say_def)
qed

text \<open>C4, as stated, fails: an incremental backup into a backup directory that does not
  exist ends with the exception of \<^verbatim>\<open>fs::directory_iterator\<close> (line 161), which no handler
  catches.\<close>

theorem missing_backup_root_throws:
  "fst (incremental_backup plain_env [''src''] [''nowhere''] (start tree_unchanged))
     = Inl (Filesystem_error Iterate [''nowhere''])"
  by code_simp

text \<open>C4, amended. An exception that leaves a full or an incremental backup was thrown by a
  directory iteration or by \<^verbatim>\<open>create_directories\<close>. The faults of single files are caught
  and the run goes on. A scan returns the records of exactly the regular files whose
  digest can be computed, in the order of the iteration, and prints a line for each
  other regular file. In a completed full backup, the files written and the failed
  copies reported are together as many as the files of the inventory. In a completed
  incremental backup that found a latest backup, the files written and the failed copies
  reported are together as many as the files classified as new or modified and the files
  of the latest backup for which no source file has the same relative path and digest.
  A full backup returns \<^verbatim>\<open>false\<close> only when the source is missing, an incremental backup
  only then or after printing that there are no changes. The faults of directories are
  not caught: the exception of listing the backup directory (line 161) ends an
  incremental backup, and the exception of creating the snapshot directory (line 108)
  and an exception of the iteration of the scan (line 67) end a full backup, each leaving
  the call as it was thrown.\<close>

theorem file_faults_caught_directory_faults_escape:
  "(create_backup e src bak w = (Inl ex, w') \<or> incremental_backup e src bak w = (Inl ex, w')
      \<longrightarrow> directory_fault ex)
   \<and> scan_directory e dir v =
       (case recursive_directory_iterator (root v) dir of
          (ys, x) \<Rightarrow>
            ((case x of None \<Rightarrow> Inr (fingerprinted e (root v) ys) | Some x' \<Rightarrow> Inl x'),
             v\<lparr>console := console v @ not_fingerprinted e (root v) ys\<rparr>))
   \<and> (create_backup e src bak w = (Inr True, w') \<longrightarrow>
        length (new_ops w w') + length (filter is_cannot_copy (new_console w w'))
          = file_count (last (backup_history w')))
   \<and> (incremental_backup e src bak w = (Inr True, w')
        \<and> find_backups (root w) bak = Inr backups \<and> backups \<noteq> []
        \<and> scan_directory e src (say Scanning_changes (say (Found_latest (last (sort backups))) w))
            = (Inr source_files, w1)
        \<and> scan_directory e (last (sort backups)) w1 = (Inr backup_files, w2)
        \<longrightarrow>
        length (new_ops w w') + length (filter is_cannot_copy (new_console w w'))
          = length (files_to_backup src source_files backup_files)
            + length (filter (\<lambda>b. need_copy src source_files
                                (relative (path b) (last (sort backups))) b) backup_files))
   \<and> (create_backup e src bak w = (Inr False, w') \<longrightarrow> \<not> exists (root w) src)
   \<and> (incremental_backup e src bak w = (Inr False, w') \<longrightarrow>
        \<not> exists (root w) src \<or> last (console w') = No_changes)
   \<and> (exists (root w) src \<and> find_backups (root w) bak = Inl ex
        \<longrightarrow> incremental_backup e src bak w = (Inl ex, w))
   \<and> (exists (root w) src
        \<and> create_directories (bak @ [''backup_'' @ current_timestamp e]) (root w) = Inl ex
        \<longrightarrow> create_backup e src bak w = (Inl ex, w))
   \<and> (exists (root w) src
        \<and> create_directories (bak @ [''backup_'' @ current_timestamp e]) (root w) = Inr t
        \<and> snd (recursive_directory_iterator t src) = Some ex
        \<longrightarrow> fst (create_backup e src bak w) = Inl ex)"
proof (intro conjI impI)
  assume "create_backup e src bak w = (Inl ex, w') \<or> incremental_backup e src bak w = (Inl ex, w')"
  then show "directory_fault ex"
    using create_backup_exn incremental_backup_exn by blast
next
  show "scan_directory e dir v =
       (case recursive_directory_iterator (root v) dir of
          (ys, x) \<Rightarrow>
            ((case x of None \<Rightarrow> Inr (fingerprinted e (root v) ys) | Some x' \<Rightarrow> Inl x'),
             v\<lparr>console := console v @ not_fingerprinted e (root v) ys\<rparr>))"
    by (rule scan_directory_all)
next
  assume "create_backup e src bak w = (Inr True, w')"
  then show "length (new_ops w w') + length (filter is_cannot_copy (new_console w w'))
          = file_count (last (backup_history w'))"
    by (rule create_backup_attempts)
next
  assume a: "incremental_backup e src bak w = (Inr True, w')
        \<and> find_backups (root w) bak = Inr backups \<and> backups \<noteq> []
        \<and> scan_directory e src (say Scanning_changes (say (Found_latest (last (sort backups))) w))
            = (Inr source_files, w1)
        \<and> scan_directory e (last (sort backups)) w1 = (Inr backup_files, w2)"
  then have run: "incremental_backup e src bak w = (Inr True, w')"
    and prior: "find_backups (root w) bak = Inr backups" "backups \<noteq> []"
    and s1: "scan_directory e src (say Scanning_changes (say (Found_latest (last (sort backups))) w))
            = (Inr source_files, w1)"
    and s2: "scan_directory e (last (sort backups)) w1 = (Inr backup_files, w2)"
    by simp_all
  from run prior s1 s2 show
    "length (new_ops w w') + length (filter is_cannot_copy (new_console w w'))
          = length (files_to_backup src source_files backup_files)
            + length (filter (\<lambda>b. need_copy src source_files
                                (relative (path b) (last (sort backups))) b) backup_files)"
    by (rule incremental_backup_attempts)
next
  assume "create_backup e src bak w = (Inr False, w')"
  then show "\<not> exists (root w) src" by (rule create_backup_False)
next
  assume "incremental_backup e src bak w = (Inr False, w')"
  then show "\<not> exists (root w) src \<or> last (console w') = No_changes"
    by (rule incremental_backup_False)
next
  assume "exists (root w) src \<and> find_backups (root w) bak = Inl ex"
  then show "incremental_backup e src bak w = (Inl ex, w)"
    by (simp add: incremental_backup_def)
next
  assume "exists (root w) src
        \<and> create_directories (bak @ [''backup_'' @ current_timestamp e]) (root w) = Inl ex"
  then show "create_backup e src bak w = (Inl ex, w)"
    by (simp add: create_backup_def Let_def)
next
  assume "exists (root w) src
        \<and> create_directories (bak @ [''backup_'' @ current_timestamp e]) (root w) = Inr t
        \<and> snd (recursive_directory_iterator t src) = Some ex"
  then have src: "exists (root w) src"
    and mk: "create_directories (bak @ [''backup_'' @ current_timestamp e]) (root w) = Inr t"
    and it: "snd (recursive_directory_iterator t src) = Some ex"
    by simp_all
  from it obtain ys where "recursive_directory_iterator t src = (ys, Some ex)"
    by (metis prod.collapse)
  then have "fst (scan_directory e src (say (Scanning_source src) (w\<lparr>root := t\<rparr>))) = Inl ex"
    by (simp add: scan_directory_all say_def)
  then obtain w1 where "scan_directory e src (say (Scanning_source src) (w\<lparr>root := t\<rparr>)) = (Inl ex, w1)"
    by (metis prod.collapse)
  with src mk show "fst (create_backup e src bak w) = Inl ex"
    by (simp add: create_backup_def Let_def)
qed

theorem file_faults_caught_directory_faults_escape_witness:
  "incremental_backup plain_env [''src''] [''nowhere''] (start tree_unchanged)
     = (Inl (Filesystem_error Iterate [''nowhere'']), start tree_unchanged)
   \<and> directory_fault (Filesystem_error Iterate [''nowhere''])
   \<and> fst (scan_directory one_fault_env [''src''] (start tree_two_files)) = Inr [a_txt, b_txt]
   \<and> console (snd (scan_directory one_fault_env [''src''] (start tree_two_files)))
       = [Cannot_process [''src'', ''secret''] (Runtime_error [''src'', ''secret''])]
   \<and> fst (create_backup one_fault_env [''src''] [''bk''] (start tree_two_files)) = Inr True
   \<and> filter is_cannot_copy
        (console (snd (create_backup one_fault_env [''src''] [''bk''] (start tree_two_files))))
       = [Cannot_copy [''a.txt''] (Filesystem_error Copy_file [''src'', ''a.txt''])]
   \<and> length (new_ops (start tree_two_files)
         (snd (create_backup one_fault_env [''src''] [''bk''] (start tree_two_files))))
       + length (filter is_cannot_copy (new_console (start tree_two_files)
         (snd (create_backup one_fault_env [''src''] [''bk''] (start tree_two_files))))) = 2
   \<and> fst (incremental_backup plain_env [''src''] [''bk''] (start tree_blocked)) = Inr True
   \<and> length (new_ops (start tree_blocked)
         (snd (incremental_backup plain_env [''src''] [''bk''] (start tree_blocked))))
       + length (filter is_cannot_copy (new_console (start tree_blocked)
         (snd (incremental_backup plain_env [''src''] [''bk''] (start tree_blocked))))) = 1 + 1
   \<and> fst (create_backup plain_env [''gone''] [''bk''] (start tree_unchanged)) = Inr False
   \<and> \<not> exists (root (start tree_unchanged)) [''gone'']
   \<and> fst (incremental_backup plain_env [''src''] [''bk''] (start tree_no_changes)) = Inr False
   \<and> exists (root (start tree_no_changes)) [''src'']
   \<and> last (console (snd (incremental_backup plain_env [''src''] [''bk''] (start tree_no_changes))))
       = No_changes
   \<and> create_backup plain_env [''src''] [''bk''] (start tree_backup_root_file)
       = (Inl (Filesystem_error Create_directories [''bk'', ''backup_20240102_000000'']),
          start tree_backup_root_file)
   \<and> fst (create_backup plain_env [''src''] [''bk''] (start tree_unlistable_source))
       = Inl (Filesystem_error Iterate [''src'', ''sub''])"
proof -
  let ?g = "\<lparr>path = [''src'', ''x'', ''y.txt''], md5 = ''new'', file_size = 3\<rparr>"
  let ?x = "\<lparr>path = [''bk'', ''backup_20240101_000000'', ''x''], md5 = ''old'', file_size = 3\<rparr>"
  let ?latest = "[''bk'', ''backup_20240101_000000'']"
  let ?full = "create_backup one_fault_env [''src''] [''bk''] (start tree_two_files)"
  let ?incr = "incremental_backup plain_env [''src''] [''bk''] (start tree_blocked)"
  let ?gone = "create_backup plain_env [''gone''] [''bk''] (start tree_unchanged)"
  let ?same = "incremental_backup plain_env [''src''] [''bk''] (start tree_no_changes)"
  let ?w1 = "say Scanning_changes (say (Found_latest ?latest) (start tree_blocked))"
  let ?t = "Dir True [(''src'', Dir True [(''sub'', Dir False [])]),
                      (''bk'', Dir True [(''backup_20240102_000000'', Dir True [])])]"
  note main = file_faults_caught_directory_faults_escape
  note escape = main [THEN conjunct1, rule_format]
  note scan = main [THEN conjunct2, THEN conjunct1]
  note full_run = main [THEN conjunct2, THEN conjunct2, THEN conjunct1, rule_format]
  note incr_run = main [THEN conjunct2, THEN conjunct2, THEN conjunct2, THEN conjunct1, rule_format]
  note full_false = main [THEN conjunct2, THEN conjunct2, THEN conjunct2, THEN conjunct2,
      THEN conjunct1, rule_format]
  note incr_false = main [THEN conjunct2, THEN conjunct2, THEN conjunct2, THEN conjunct2,
      THEN conjunct2, THEN conjunct1, rule_format]
  note root_fault = main [THEN conjunct2, THEN conjunct2, THEN conjunct2, THEN conjunct2,
      THEN conjunct2, THEN conjunct2, THEN conjunct1, rule_format]
  note mkdir_fault = main [THEN conjunct2, THEN conjunct2, THEN conjunct2, THEN conjunct2,
      THEN conjunct2, THEN conjunct2, THEN conjunct2, THEN conjunct1, rule_format]
  note scan_fault = main [THEN conjunct2, THEN conjunct2, THEN conjunct2, THEN conjunct2,
      THEN conjunct2, THEN conjunct2, THEN conjunct2, THEN conjunct2, rule_format]
  have src: "exists (root (start tree_unchanged)) [''src'']" by code_simp
  have fb: "find_backups (root (start tree_unchanged)) [''nowhere'']
     = Inl (Filesystem_error Iterate [''nowhere''])" by code_simp
  from root_fault [OF conjI [OF src fb], of plain_env]
  have run: "incremental_backup plain_env [''src''] [''nowhere''] (start tree_unchanged)
     = (Inl (Filesystem_error Iterate [''nowhere'']), start tree_unchanged)" .
  from escape [OF disjI2, OF run]
  have 1: "directory_fault (Filesystem_error Iterate [''nowhere''])" .
  have it: "recursive_directory_iterator (root (start tree_two_files)) [''src'']
     = ([([''src'', ''a.txt''], File ''one'' True), ([''src'', ''secret''], File ''two'' False),
         ([''src'', ''b.txt''], File ''three'' True)], None)" by code_simp
  have fp: "fingerprinted one_fault_env (root (start tree_two_files))
       [([''src'', ''a.txt''], File ''one'' True), ([''src'', ''secret''], File ''two'' False),
        ([''src'', ''b.txt''], File ''three'' True)] = [a_txt, b_txt]" by code_simp
  have nfp: "not_fingerprinted one_fault_env (root (start tree_two_files))
       [([''src'', ''a.txt''], File ''one'' True), ([''src'', ''secret''], File ''two'' False),
        ([''src'', ''b.txt''], File ''three'' True)]
     = [Cannot_process [''src'', ''secret''] (Runtime_error [''src'', ''secret''])]" by code_simp
  have c0: "console (start tree_two_files) = []" by (simp add: start_def)
  have 2: "fst (scan_directory one_fault_env [''src''] (start tree_two_files)) = Inr [a_txt, b_txt]"
    by (simp only: scan [of one_fault_env "[''src'']" "start tree_two_files"] it fp
        prod.case option.case fst_conv)
  have 3: "console (snd (scan_directory one_fault_env [''src''] (start tree_two_files)))
       = [Cannot_process [''src'', ''secret''] (Runtime_error [''src'', ''secret''])]"
    by (simp add: scan [of one_fault_env "[''src'']" "start tree_two_files"] it nfp c0)
  have full: "fst ?full = Inr True" by code_simp
  then have full': "?full = (Inr True, snd ?full)" by (metis prod.collapse)
  have full_msgs: "filter is_cannot_copy (console (snd ?full))
       = [Cannot_copy [''a.txt''] (Filesystem_error Copy_file [''src'', ''a.txt''])]"
    by code_simp
  have full_count: "file_count (last (backup_history (snd ?full))) = 2" by code_simp
  from full_run [OF full']
  have 4: "length (new_ops (start tree_two_files) (snd ?full))
       + length (filter is_cannot_copy (new_console (start tree_two_files) (snd ?full))) = 2"
    unfolding full_count .
  have incr: "fst ?incr = Inr True" by code_simp
  then have incr': "?incr = (Inr True, snd ?incr)" by (metis prod.collapse)
  have l: "last (sort [?latest]) = ?latest" by simp
  have fb2: "find_backups (root (start tree_blocked)) [''bk''] = Inr [?latest]" by code_simp
  have ne: "[?latest] \<noteq> []" by simp
  have s1: "scan_directory plain_env [''src'']
             (say Scanning_changes (say (Found_latest (last (sort [?latest]))) (start tree_blocked)))
          = (Inr [?g], ?w1)"
    unfolding l by code_simp
  have s2: "scan_directory plain_env (last (sort [?latest])) ?w1 = (Inr [?x], ?w1)"
    unfolding l by code_simp
  have tb: "length (files_to_backup [''src''] [?g] [?x]) = 1" by code_simp
  have nc: "length (filter (\<lambda>b. need_copy [''src''] [?g] (relative (path b) (last (sort [?latest]))) b)
              [?x]) = 1"
    unfolding l by code_simp
  from incr_run [OF conjI [OF incr' conjI [OF fb2 conjI [OF ne conjI [OF s1 s2]]]]]
  have 5: "length (new_ops (start tree_blocked) (snd ?incr))
       + length (filter is_cannot_copy (new_console (start tree_blocked) (snd ?incr))) = 1 + 1"
    unfolding tb nc .
  have gone: "fst ?gone = Inr False" by code_simp
  then have gone': "?gone = (Inr False, snd ?gone)" by (metis prod.collapse)
  from full_false [OF gone']
  have 6: "\<not> exists (root (start tree_unchanged)) [''gone'']" .
  have same: "fst ?same = Inr False" by code_simp
  then have same': "?same = (Inr False, snd ?same)" by (metis prod.collapse)
  have here: "exists (root (start tree_no_changes)) [''src'']" by code_simp
  from incr_false [OF same'] here
  have 7: "last (console (snd ?same)) = No_changes" by blast
  have src2: "exists (root (start tree_backup_root_file)) [''src'']" by code_simp
  have mk2: "create_directories ([''bk''] @ [''backup_'' @ current_timestamp plain_env])
       (root (start tree_backup_root_file))
     = Inl (Filesystem_error Create_directories [''bk'', ''backup_20240102_000000''])" by code_simp
  from mkdir_fault [OF conjI [OF src2 mk2]]
  have 8: "create_backup plain_env [''src''] [''bk''] (start tree_backup_root_file)
       = (Inl (Filesystem_error Create_directories [''bk'', ''backup_20240102_000000'']),
          start tree_backup_root_file)" .
  have src3: "exists (root (start tree_unlistable_source)) [''src'']" by code_simp
  have mk3: "create_directories ([''bk''] @ [''backup_'' @ current_timestamp plain_env])
       (root (start tree_unlistable_source)) = Inr ?t" by code_simp
  have it3: "snd (recursive_directory_iterator ?t [''src''])
     = Some (Filesystem_error Iterate [''src'', ''sub''])" by code_simp
  from scan_fault [OF conjI [OF src3 conjI [OF mk3 it3]]]
  have 9: "fst (create_backup plain_env [''src''] [''bk''] (start tree_unlistable_source))
       = Inl (Filesystem_error Iterate [''src'', ''sub''])" .
  show ?thesis
    by (intro conjI) (fact run 1 2 3 full full_msgs 4 incr 5 gone 6 same here 7 8 9)+
qed

text \<open>C5, at a concrete input. \<^verbatim>\<open>/src/a/f.txt\<close> holds \<^verbatim>\<open>new\<close> and the latest backup's
  \<^verbatim>\<open>a/f.txt\<close> holds \<^verbatim>\<open>old\<close>. The comparison of line 189 meets the backup's
  \<^verbatim>\<open>x/a/f.txt\<close> first, whose path relative to its grandparent is \<^verbatim>\<open>a/f.txt\<close> too and whose
  digest is that of the source file: the modified file is not copied from the source
  tree, and the new snapshot gets the old bytes by a link.\<close>

theorem modified_file_not_copied:
  "ops (snd (incremental_backup plain_env [''src''] [''bk''] (start tree_shadowed)))
     = [Copied_from_source [''src'', ''x'', ''a'', ''f.txt'']
          [''bk'', ''backup_20240102_000000'', ''x'', ''a'', ''f.txt''],
        Linked_from_backup [''bk'', ''backup_20240101_000000'', ''a'', ''f.txt'']
          [''bk'', ''backup_20240102_000000'', ''a'', ''f.txt'']]
   \<and> read_file (root (snd (incremental_backup plain_env [''src''] [''bk''] (start tree_shadowed))))
         [''bk'', ''backup_20240102_000000'', ''a'', ''f.txt''] = Some ''old''
   \<and> read_file tree_shadowed [''src'', ''a'', ''f.txt''] = Some ''new''"
  by code_simp

text \<open>C6, as stated, fails. The backup directory holds no directory named
  \<^verbatim>\<open>backup_<timestamp>\<close>: its only entry is the directory \<^verbatim>\<open>backup_notes\<close>. The test of
  line 162 looks at the prefix \<^verbatim>\<open>backup_\<close> only, so the incremental backup takes
  \<^verbatim>\<open>backup_notes\<close> for the latest backup: the record of the completed run has
  \<^verbatim>\<open>is_incremental = true\<close> and \<^verbatim>\<open>based_on = backup_notes\<close>, where the full backup
  records \<^verbatim>\<open>false\<close>. Nor does a backup directory that cannot be listed hold a snapshot:
  there the incremental backup ends with the exception of the iterator of line 161, and
  the full backup succeeds.\<close>

theorem other_backup_directory_taken_as_snapshot:
  "lookup tree_backup_notes [''bk''] = Some (Dir True [(''backup_notes'', Dir True [])])
   \<and> \<not> snapshot_name ''backup_notes''
   \<and> fst (incremental_backup plain_env [''src''] [''bk''] (start tree_backup_notes)) = Inr True
   \<and> is_incremental (last (backup_history
         (snd (incremental_backup plain_env [''src''] [''bk''] (start tree_backup_notes)))))
   \<and> based_on (last (backup_history
         (snd (incremental_backup plain_env [''src''] [''bk''] (start tree_backup_notes)))))
       = ''backup_notes''
   \<and> \<not> is_incremental (last (backup_history
         (snd (create_backup plain_env [''src''] [''bk''] (start tree_backup_notes)))))
   \<and> lookup tree_unlistable_root [''bk''] = Some (Dir False [])
   \<and> fst (incremental_backup plain_env [''src''] [''bk''] (start tree_unlistable_root))
       = Inl (Filesystem_error Iterate [''bk''])
   \<and> fst (create_backup plain_env [''src''] [''bk''] (start tree_unlistable_root)) = Inr True"
  by code_simp

text \<open>C6, amended. When the backup directory can be listed and holds no directory whose name
  starts with \<^verbatim>\<open>backup_\<close> (the test of line 162), an incremental backup returns what a
  full backup returns and leaves the file system, the writes and \<^verbatim>\<open>backup_history\<close> as
  the full backup does (it prints one line more); the record of a completed run has
  \<^verbatim>\<open>is_incremental = false\<close>.\<close>

theorem no_prior_snapshot_runs_full_backup:
  assumes "lookup (root w) bak = Some (Dir True es)"
    and "\<forall>(x, n) \<in> set es. is_directory n \<longrightarrow> \<not> prefix ''backup_'' x"
  shows "fst (incremental_backup e src bak w) = fst (create_backup e src bak w)
       \<and> same_effects (snd (incremental_backup e src bak w)) (snd (create_backup e src bak w))
       \<and> (fst (incremental_backup e src bak w) = Inr True \<longrightarrow>
            backup_history (snd (incremental_backup e src bak w)) \<noteq> [] \<and>
            \<not> is_incremental (last (backup_history (snd (incremental_backup e src bak w)))))"
proof -
  from assms have none: "find_backups (root w) bak = Inr []"
    by (auto simp: find_backups_def directory_iterator_def filename_def filter_empty_conv)
  have "same_effects (say No_previous_backup w) w"
    by (simp add: same_effects_def say_def)
  from create_backup_agree [OF this, of e src bak]
  have full: "fst (create_backup e src bak (say No_previous_backup w)) = fst (create_backup e src bak w)"
    "same_effects (snd (create_backup e src bak (say No_previous_backup w)))
                  (snd (create_backup e src bak w))"
    by simp_all
  have incr: "incremental_backup e src bak w =
      (if exists (root w) src then create_backup e src bak (say No_previous_backup w)
       else (Inr False, say Error_source_missing w))"
    using none by (simp add: incremental_backup_def)
  have missing: "\<not> exists (root w) src \<Longrightarrow>
      create_backup e src bak w = (Inr False, say Error_source_missing w)"
    by (simp add: create_backup_def)
  have last: "create_backup e src bak v = (Inr True, v') \<Longrightarrow>
      backup_history v' \<noteq> [] \<and> \<not> is_incremental (last (backup_history v'))" for v v'
    by (auto simp: create_backup_def Let_def say_def split: if_splits sum.splits prod.splits)
  show ?thesis
  proof (cases "exists (root w) src")
    case False
    with incr missing show ?thesis by (simp add: same_effects_def)
  next
    case True
    with incr have eq: "incremental_backup e src bak w = create_backup e src bak (say No_previous_backup w)"
      by simp
    show ?thesis unfolding eq using full last [of "say No_previous_backup w"]
      by (metis prod.collapse)
  qed
qed

theorem no_prior_snapshot_runs_full_backup_witness:
  "fst (incremental_backup plain_env [''src''] [''bk''] (start tree_first_backup)) = Inr True
   \<and> fst (create_backup plain_env [''src''] [''bk''] (start tree_first_backup)) = Inr True
   \<and> same_effects (snd (incremental_backup plain_env [''src''] [''bk''] (start tree_first_backup)))
        (snd (create_backup plain_env [''src''] [''bk''] (start tree_first_backup)))
   \<and> \<not> is_incremental (last (backup_history
        (snd (incremental_backup plain_env [''src''] [''bk''] (start tree_first_backup)))))"
proof -
  let ?es = "[(''notes'', Dir True []), (''backup_history.txt'', File [] True)]"
  have 1: "lookup (root (start tree_first_backup)) [''bk''] = Some (Dir True ?es)"
    by code_simp
  have 2: "\<forall>(x, n) \<in> set ?es. is_directory n \<longrightarrow> \<not> prefix ''backup_'' x"
    by code_simp
  have 3: "fst (incremental_backup plain_env [''src''] [''bk''] (start tree_first_backup)) = Inr True"
    by code_simp
  from no_prior_snapshot_runs_full_backup [OF 1 2, of plain_env "[''src'']"] 3 show ?thesis
    by simp
qed

text \<open>C7, at a concrete input. Links are refused, as across devices, and every copy is
  permitted. \<^verbatim>\<open>/src/a/f.txt\<close> has the bytes of the latest backup's \<^verbatim>\<open>a/f.txt\<close>, and the
  new \<^verbatim>\<open>/src/g.txt\<close> makes the run write a snapshot. The run succeeds and prints no
  failure, and the unchanged file is not in the new snapshot, which holds \<^verbatim>\<open>g.txt\<close>
  only: the only write of the run is the copy of \<^verbatim>\<open>g.txt\<close> from the source tree. The
  unchanged file never reaches the link of line 242 or the copy of line 246, since
  \<^verbatim>\<open>need_copy\<close> (lines 229 to 236) is false for exactly the files of the latest backup
  that a source file matches.\<close>

theorem unchanged_file_absent_when_links_fail:
  "fst (incremental_backup no_link_env [''src''] [''bk''] (start tree_nested_unchanged)) = Inr True
   \<and> read_file tree_nested_unchanged [''src'', ''a'', ''f.txt''] = Some ''hello''
   \<and> read_file tree_nested_unchanged [''bk'', ''backup_20240101_000000'', ''a'', ''f.txt'']
       = Some ''hello''
   \<and> console (snd (incremental_backup no_link_env [''src''] [''bk''] (start tree_nested_unchanged)))
       = [Found_latest [''bk'', ''backup_20240101_000000''], Scanning_changes, Backing_up 1,
          Processing_unmodified, Incremental_done [''bk'', ''backup_20240102_000000''],
          Processed_changed 1]
   \<and> ops (snd (incremental_backup no_link_env [''src''] [''bk''] (start tree_nested_unchanged)))
       = [Copied_from_source [''src'', ''g.txt''] [''bk'', ''backup_20240102_000000'', ''g.txt'']]
   \<and> regular_files
        (root (snd (incremental_backup no_link_env [''src''] [''bk''] (start tree_nested_unchanged))))
        [''bk'', ''backup_20240102_000000''] = [[''g.txt'']]
   \<and> read_file
        (root (snd (incremental_backup no_link_env [''src''] [''bk''] (start tree_nested_unchanged))))
        [''bk'', ''backup_20240102_000000'', ''a'', ''f.txt''] = None"
  by code_simp

text \<open>C8. A full or incremental backup whose source root does not exist fails: the call
  returns \<^verbatim>\<open>false\<close> after printing the error, the file system (so also the history file
  and the set of snapshot directories) is what it was, and so is \<^verbatim>\<open>backup_history\<close>.\<close>

theorem missing_source_root:
  assumes "\<not> exists (root w) src"
  shows "create_backup e src bak w = (Inr False, say Error_source_missing w)
       \<and> incremental_backup e src bak w = (Inr False, say Error_source_missing w)
       \<and> root (say Error_source_missing w) = root w
       \<and> backup_history (say Error_source_missing w) = backup_history w"
  using assms by (simp add: create_backup_def incremental_backup_def say_def)

theorem missing_source_root_witness:
  "\<not> exists (root (start tree_unchanged)) [''gone'']
   \<and> create_backup plain_env [''gone''] [''bk''] (start tree_unchanged)
       = (Inr False, say Error_source_missing (start tree_unchanged))
   \<and> incremental_backup plain_env [''gone''] [''bk''] (start tree_unchanged)
       = (Inr False, say Error_source_missing (start tree_unchanged))
   \<and> root (say Error_source_missing (start tree_unchanged)) = tree_unchanged
   \<and> backup_history (say Error_source_missing (start tree_unchanged)) = []"
proof -
  have gone: "\<not> exists (root (start tree_unchanged)) [''gone'']"
    by code_simp
  show ?thesis
    using gone missing_source_root [OF gone, of plain_env "[''bk'']"]
    by (simp add: start_def)
qed







end
